theory Spec2Isabelle
  imports Complex_Main "HOL-Library.Sublist" "HOL-Library.Log_Nat"
begin

section \<open>The remote objects\<close>

text \<open>
  The scripts of the repository drive a remote File Search service through a client
  object. The objects the client hands back are modelled with the fields the scripts
  read. An attribute that the source probes with \<^verbatim>\<open>hasattr\<close> or reads with
  \<^verbatim>\<open>getattr(obj, name, default)\<close> is an \<open>option\<close>: \<open>None\<close> is the absent
  attribute. An attribute tested for truth (\<^verbatim>\<open>operation.error\<close>,
  \<^verbatim>\<open>grounding_metadata\<close>) is an \<open>option\<close> whose \<open>None\<close> is the absent or
  falsy value. The \<^verbatim>\<open>size_bytes\<close> of a document, where the attribute is present,
  is an integer or \<^verbatim>\<open>None\<close>: the client declares the field optional and holds
  \<^verbatim>\<open>None\<close> for a size the service did not send.

  An exception is its message (what \<^verbatim>\<open>str(e)\<close> gives); every exception of the
  model is an instance of Python's \<^verbatim>\<open>Exception\<close>.
\<close>

type_synonym exn = string

record operation =
  op_name :: string
  op_done :: bool
  op_error :: "string option"
  op_response :: "string option"

record store =
  store_name :: string
  store_display_name :: string

datatype attr_value = Is_None | Is_int int

record document =
  doc_name :: string
  doc_display_name :: string
  size_bytes :: "attr_value option"

record file_search_ref =
  fs_document_display_name :: string
  page_range :: "(int \<times> int) option"

record grounding_chunk =
  file_search :: "file_search_ref option"

record grounding_metadata_obj =
  grounding_chunks :: "grounding_chunk list"

record candidate =
  grounding_metadata :: "grounding_metadata_obj option"

record response =
  text_of :: string
  candidates :: "candidate list"

text \<open>
  The configuration dictionary of an upload: \<^verbatim>\<open>display_name\<close> and the two
  fields of \<^verbatim>\<open>chunking_config.white_space_config\<close>.
\<close>

record upload_config =
  cfg_display_name :: string
  max_tokens_per_chunk :: int
  max_overlap_tokens :: int

type_synonym metadata = "(string \<times> string) list"

section \<open>Remote calls, the trace of a run and the environment\<close>

datatype remote_call =
    StoresCreate string
  | StoresList
  | DocumentsList string
  | UploadToStore string string upload_config
  | ImportFile string string "metadata option"
  | OperationsGet operation
  | GenerateContent string string string
  | StoresDelete string bool
  | DeleteDocument string

text \<open>
  A run is observed through its trace: the lines it prints (\<open>'l\<close> is the type of the
  lines of one script function), the remote calls it issues, its sleeps and its reads
  from the console, in order.
\<close>

datatype 'l event = Print 'l | Call remote_call | Sleep nat | ReadInput

text \<open>
  The environment answers the calls. An answer may depend on the moment of the call,
  which is the number of events before it, so that a remote state that changes between
  two calls is an environment too. \<open>Inl\<close> is a raised exception.
\<close>

record env =
  path_exists :: "string \<Rightarrow> bool"
  console_input :: "nat \<Rightarrow> exn + string"
  stores_create :: "nat \<Rightarrow> string \<Rightarrow> exn + store"
  stores_list :: "nat \<Rightarrow> exn + store list"
  documents_list :: "nat \<Rightarrow> string \<Rightarrow> exn + document list"
  upload_to_store :: "nat \<Rightarrow> string \<Rightarrow> string \<Rightarrow> upload_config \<Rightarrow> exn + operation"
  import_file :: "nat \<Rightarrow> string \<Rightarrow> string \<Rightarrow> metadata option \<Rightarrow> exn + operation"
  operations_get :: "nat \<Rightarrow> operation \<Rightarrow> exn + operation"
  generate_content :: "nat \<Rightarrow> string \<Rightarrow> string \<Rightarrow> string \<Rightarrow> exn + response"
  stores_delete :: "nat \<Rightarrow> string \<Rightarrow> bool \<Rightarrow> exn + unit"
  delete_document :: "nat \<Rightarrow> string \<Rightarrow> exn + unit"

definition calls_of :: "'l event list \<Rightarrow> remote_call list" where
  "calls_of tr = concat (map (\<lambda>ev. case ev of Call c \<Rightarrow> [c] | _ \<Rightarrow> []) tr)"

definition prints_of :: "'l event list \<Rightarrow> 'l list" where
  "prints_of tr = concat (map (\<lambda>ev. case ev of Print l \<Rightarrow> [l] | _ \<Rightarrow> []) tr)"

text \<open>How a script function ends: it returns, an exception leaves it, or it exits.\<close>

datatype outcome = Returned | Raised exn | Exited nat

section \<open>The completion wait\<close>

text \<open>
  \<^verbatim>\<open>upload_files\<close>, \<^verbatim>\<open>import_files\<close> and the demo's \<^verbatim>\<open>main\<close> wait
  with the same three lines:
  \<^verbatim>\<open>
  while not operation.done:
      time.sleep(2)
      operation = client.operations.get(operation)
  \<close>
  The loop has no bound, so the model is a partial function: \<open>None\<close> is the run that
  polls for ever. A fetch that raises ends the loop with the exception.
\<close>

partial_function (option) wait_done ::
  "env \<Rightarrow> operation \<Rightarrow> 'l event list \<Rightarrow> ((exn + operation) \<times> 'l event list) option" where
  "wait_done env operation tr =
     (if op_done operation then Some (Inr operation, tr)
      else (case operations_get env (length tr + 1) operation of
              Inl e \<Rightarrow> Some (Inl e, tr @ [Sleep 2, Call (OperationsGet operation)])
            | Inr operation' \<Rightarrow>
                wait_done env operation' (tr @ [Sleep 2, Call (OperationsGet operation)])))"

declare wait_done.simps [code]

section \<open>Ingestion: \<^verbatim>\<open>upload_files\<close> and \<^verbatim>\<open>import_files\<close>\<close>

text \<open>\<^verbatim>\<open>os.path.basename\<close>: what follows the last slash.\<close>

definition basename :: "string \<Rightarrow> string" where
  "basename p = rev (takeWhile (\<lambda>c. c \<noteq> CHR ''/'') (rev p))"

text \<open>The configuration every upload is submitted with: the source writes the literal.\<close>

definition upload_config_for :: "string \<Rightarrow> upload_config" where
  "upload_config_for file_path =
     \<lparr>cfg_display_name = basename file_path,
      max_tokens_per_chunk = 500,
      max_overlap_tokens = 50\<rparr>"

datatype upload_line =
    Uploading_files_to_store string
  | File_not_found string
  | Uploading string
  | Uploaded_successfully
  | Error_uploading string exn
  | Uploaded_total nat nat

text \<open>
  The body of the \<^verbatim>\<open>for file_path in file_paths\<close> loop of \<^verbatim>\<open>upload_files\<close>,
  with the counter \<^verbatim>\<open>uploaded\<close>. The \<^verbatim>\<open>try\<close> covers the submission and the
  wait; after the wait the source prints success without reading
  \<^verbatim>\<open>operation.error\<close>.
\<close>

fun upload_loop ::
  "env \<Rightarrow> string \<Rightarrow> string list \<Rightarrow> nat \<Rightarrow> upload_line event list
     \<Rightarrow> (nat \<times> upload_line event list) option" where
  "upload_loop env store_nm [] uploaded tr = Some (uploaded, tr)"
| "upload_loop env store_nm (file_path # rest) uploaded tr =
     (if \<not> path_exists env file_path
      then upload_loop env store_nm rest uploaded (tr @ [Print (File_not_found file_path)])
      else
        (case upload_to_store env (length tr + 1) file_path store_nm (upload_config_for file_path) of
           Inl e \<Rightarrow>
             upload_loop env store_nm rest uploaded
               (tr @ [Print (Uploading file_path),
                      Call (UploadToStore file_path store_nm (upload_config_for file_path)),
                      Print (Error_uploading file_path e)])
         | Inr operation \<Rightarrow>
             (case wait_done env operation
                     (tr @ [Print (Uploading file_path),
                            Call (UploadToStore file_path store_nm (upload_config_for file_path))]) of
                None \<Rightarrow> None
              | Some (Inl e, tr') \<Rightarrow>
                  upload_loop env store_nm rest uploaded (tr' @ [Print (Error_uploading file_path e)])
              | Some (Inr operation', tr') \<Rightarrow>
                  upload_loop env store_nm rest (uploaded + 1) (tr' @ [Print Uploaded_successfully]))))"

definition upload_files :: "env \<Rightarrow> string \<Rightarrow> string list \<Rightarrow> upload_line event list option" where
  "upload_files env store_nm file_paths =
     (case upload_loop env store_nm file_paths 0 [Print (Uploading_files_to_store store_nm)] of
        None \<Rightarrow> None
      | Some (uploaded, tr) \<Rightarrow> Some (tr @ [Print (Uploaded_total uploaded (length file_paths))]))"

datatype import_line =
    Importing_files_to_store string
  | Importing string
  | Import_failed string
  | Imported_successfully
  | Error_importing string exn
  | Imported_total nat nat

text \<open>
  \<^verbatim>\<open>config = {}\<close>, and \<^verbatim>\<open>custom_metadata\<close> is added when it is truthy: neither
  \<^verbatim>\<open>None\<close> nor empty.
\<close>

definition import_config :: "metadata option \<Rightarrow> metadata option" where
  "import_config custom_metadata =
     (case custom_metadata of None \<Rightarrow> None | Some m \<Rightarrow> if m = [] then None else Some m)"

fun import_loop ::
  "env \<Rightarrow> string \<Rightarrow> metadata option \<Rightarrow> string list \<Rightarrow> nat \<Rightarrow> import_line event list
     \<Rightarrow> (nat \<times> import_line event list) option" where
  "import_loop env store_nm custom_metadata [] imported tr = Some (imported, tr)"
| "import_loop env store_nm custom_metadata (file_id # rest) imported tr =
     (case import_file env (length tr + 1) store_nm file_id (import_config custom_metadata) of
        Inl e \<Rightarrow>
          import_loop env store_nm custom_metadata rest imported
            (tr @ [Print (Importing file_id),
                   Call (ImportFile store_nm file_id (import_config custom_metadata)),
                   Print (Error_importing file_id e)])
      | Inr operation \<Rightarrow>
          (case wait_done env operation
                  (tr @ [Print (Importing file_id),
                         Call (ImportFile store_nm file_id (import_config custom_metadata))]) of
             None \<Rightarrow> None
           | Some (Inl e, tr') \<Rightarrow>
               import_loop env store_nm custom_metadata rest imported
                 (tr' @ [Print (Error_importing file_id e)])
           | Some (Inr operation', tr') \<Rightarrow>
               (case op_error operation' of
                  Some err \<Rightarrow>
                    import_loop env store_nm custom_metadata rest imported
                      (tr' @ [Print (Import_failed err)])
                | None \<Rightarrow>
                    import_loop env store_nm custom_metadata rest (imported + 1)
                      (tr' @ [Print Imported_successfully]))))"

definition import_files ::
  "env \<Rightarrow> string \<Rightarrow> string list \<Rightarrow> metadata option \<Rightarrow> import_line event list option" where
  "import_files env store_nm file_ids custom_metadata =
     (case import_loop env store_nm custom_metadata file_ids 0
             [Print (Importing_files_to_store store_nm)] of
        None \<Rightarrow> None
      | Some (imported, tr) \<Rightarrow> Some (tr @ [Print (Imported_total imported (length file_ids))]))"

section \<open>Statistics: \<^verbatim>\<open>show_stats\<close>\<close>

subsection \<open>Python's numbers\<close>

text \<open>
  \<^verbatim>\<open>getattr(doc, 'size_bytes', 0)\<close>: the attribute's value when the document has
  the attribute, which may be \<^verbatim>\<open>None\<close>, and 0 when it has not.
\<close>

definition getattr_size_bytes :: "document \<Rightarrow> attr_value" where
  "getattr_size_bytes doc = (case size_bytes doc of None \<Rightarrow> Is_int 0 | Some v \<Rightarrow> v)"

text \<open>
  \<^verbatim>\<open>sum(...)\<close> adds from 0, left to right, on Python's unbounded integers; adding
  \<^verbatim>\<open>None\<close> to the integer reached raises \<^verbatim>\<open>TypeError\<close>, whose message is
  \<^verbatim>\<open>unsupported operand type(s) for +: 'int' and 'NoneType'\<close>.
\<close>

definition int_plus_None :: exn where
  "int_plus_None = ''unsupported operand type(s) for +: 'int' and 'NoneType'' @ [CHR 0x27]"

fun py_sum :: "int \<Rightarrow> attr_value list \<Rightarrow> exn + int" where
  "py_sum acc [] = Inr acc"
| "py_sum acc (Is_int n # rest) = py_sum (acc + n) rest"
| "py_sum acc (Is_None # rest) = Inl int_plus_None"

text \<open>
  A Python float is an IEEE 754 double: a real number with a significand of 53 bits and
  an exponent between \<open>-1074\<close> and \<open>971\<close>, an infinity, or not a number. (The sign
  of a zero is not kept: no line of the statistics depends on it.)
\<close>

datatype pyfloat = Fin real | Pos_inf | Neg_inf | NaN

definition pow2 :: "int \<Rightarrow> real" where
  "pow2 s = (if 0 \<le> s then 2 ^ nat s else 1 / 2 ^ nat (- s))"

text \<open>The integer nearest to \<open>y\<close>, the even one of two that are equally near.\<close>

definition round_half_even :: "real \<Rightarrow> int" where
  "round_half_even y =
     (if y - of_int \<lfloor>y\<rfloor> < 1 / 2 then \<lfloor>y\<rfloor>
      else if 1 / 2 < y - of_int \<lfloor>y\<rfloor> then \<lfloor>y\<rfloor> + 1
      else if even \<lfloor>y\<rfloor> then \<lfloor>y\<rfloor> else \<lfloor>y\<rfloor> + 1)"

text \<open>For \<open>0 < x\<close>, the exponent \<open>e\<close> with \<open>2 ^ e \<le> x < 2 ^ (e + 1)\<close>.\<close>

definition ilog2 :: "real \<Rightarrow> int" where
  "ilog2 x =
     (if 1 \<le> x then bitlen \<lfloor>x\<rfloor> - 1
      else - bitlen (\<lceil>1 / x\<rceil> - 1))"

text \<open>
  The result of an arithmetic operation whose exact value is \<open>q\<close>: \<open>q\<close> rounded to
  the nearest multiple of the unit in its last place (53 bits, the unit never below
  \<open>2 ^ -1074\<close>), ties to even, and an infinity when the rounded value does not fit.
\<close>

definition nearest_double :: "real \<Rightarrow> pyfloat" where
  "nearest_double q =
     (if q = 0 then Fin 0
      else if pow2 1024 \<le> \<bar>of_int (round_half_even (q / pow2 (max (ilog2 \<bar>q\<bar> - 52) (- 1074))))
                                 * pow2 (max (ilog2 \<bar>q\<bar> - 52) (- 1074))\<bar>
      then (if 0 < q then Pos_inf else Neg_inf)
      else Fin (of_int (round_half_even (q / pow2 (max (ilog2 \<bar>q\<bar> - 52) (- 1074))))
                  * pow2 (max (ilog2 \<bar>q\<bar> - 52) (- 1074))))"

text \<open>
  \<^verbatim>\<open>a / b\<close> on two integers (\<open>b\<close> is not 0 here): the nearest double of the
  quotient, and \<^verbatim>\<open>OverflowError\<close> when that is too large for a float.
\<close>

definition true_div :: "int \<Rightarrow> int \<Rightarrow> exn + pyfloat" where
  "true_div a b =
     (case nearest_double (of_int a / of_int b) of
        Fin r \<Rightarrow> Inr (Fin r)
      | Pos_inf \<Rightarrow> Inl ''integer division result too large for a float''
      | Neg_inf \<Rightarrow> Inl ''integer division result too large for a float''
      | NaN \<Rightarrow> Inl ''integer division result too large for a float'')"

text \<open>
  \<^verbatim>\<open>x + y\<close> on floats (an integer operand is converted first; the integers of
  the source, 0 and 1024, convert exactly). Adding zero changes nothing.
\<close>

definition float_add :: "pyfloat \<Rightarrow> pyfloat \<Rightarrow> pyfloat" where
  "float_add x y =
     (if y = Fin 0 then x
      else if x = Fin 0 then y
      else (case x of
              Fin a \<Rightarrow> (case y of Fin b \<Rightarrow> nearest_double (a + b) | Pos_inf \<Rightarrow> Pos_inf
                                 | Neg_inf \<Rightarrow> Neg_inf | NaN \<Rightarrow> NaN)
            | Pos_inf \<Rightarrow> (case y of Fin b \<Rightarrow> Pos_inf | Pos_inf \<Rightarrow> Pos_inf
                                   | Neg_inf \<Rightarrow> NaN | NaN \<Rightarrow> NaN)
            | Neg_inf \<Rightarrow> (case y of Fin b \<Rightarrow> Neg_inf | Pos_inf \<Rightarrow> NaN
                                   | Neg_inf \<Rightarrow> Neg_inf | NaN \<Rightarrow> NaN)
            | NaN \<Rightarrow> NaN))"

definition float_neg :: "pyfloat \<Rightarrow> pyfloat" where
  "float_neg x =
     (case x of Fin a \<Rightarrow> Fin (- a) | Pos_inf \<Rightarrow> Neg_inf | Neg_inf \<Rightarrow> Pos_inf | NaN \<Rightarrow> NaN)"

text \<open>
  \<^verbatim>\<open>x * 3\<close>, \<^verbatim>\<open>x * 100\<close> and \<^verbatim>\<open>x / 1024\<close>: a float times or over a positive
  integer that converts exactly, here as the factor \<open>c\<close> (3, 100 or \<open>1 / 1024\<close>).
\<close>

definition scaled :: "pyfloat \<Rightarrow> real \<Rightarrow> pyfloat" where
  "scaled x c =
     (case x of Fin a \<Rightarrow> nearest_double (a * c) | Pos_inf \<Rightarrow> Pos_inf | Neg_inf \<Rightarrow> Neg_inf
              | NaN \<Rightarrow> NaN)"

text \<open>\<^verbatim>\<open>x < k\<close> for a float and an integer.\<close>

definition float_less :: "pyfloat \<Rightarrow> int \<Rightarrow> bool" where
  "float_less x k =
     (case x of Fin a \<Rightarrow> a < of_int k | Pos_inf \<Rightarrow> False | Neg_inf \<Rightarrow> True | NaN \<Rightarrow> False)"

subsection \<open>The function\<close>

text \<open>
  \<^verbatim>\<open>sum(getattr(doc, 'size_bytes', 0) for doc in docs) / (1024 * 1024)\<close>: the size
  of a listing in megabytes, or the exception of the sum or of the division.
\<close>

definition size_mb :: "document list \<Rightarrow> exn + pyfloat" where
  "size_mb docs =
     (case py_sum 0 (map getattr_size_bytes docs) of
        Inl e \<Rightarrow> Inl e
      | Inr bytes \<Rightarrow> true_div bytes (1024 * 1024))"

text \<open>
  The lines of the statistics, each with the values it shows. The source formats a
  size with two decimals and the percentage with one; the integers 0 and 1024, which
  the totals hold when no addition has made them floats, are shown like the floats of
  the same value.
\<close>

datatype stats_line =
    Statistics_for_store string
  | Documents nat
  | Total_size pyfloat
  | Estimated_storage_with_embeddings pyfloat
  | Stats_error exn
  | Global_storage_statistics
  | No_stores_found
  | Total_stores nat
  | Total_documents nat
  | Total_input_size pyfloat
  | Estimated_storage_used pyfloat pyfloat
  | Free_tier_limit
  | Remaining pyfloat pyfloat
  | Exceeds_free_tier pyfloat

text \<open>The text the source prints in front of the values of a line.\<close>

fun label :: "stats_line \<Rightarrow> string" where
  "label (Statistics_for_store _) = ''Statistics for store: ''"
| "label (Documents _) = ''Documents: ''"
| "label (Total_size _) = ''Total Size: ~''"
| "label (Estimated_storage_with_embeddings _) = ''Estimated Storage (with embeddings): ~''"
| "label (Stats_error _) = ''Error: ''"
| "label Global_storage_statistics = ''Global Storage Statistics''"
| "label No_stores_found = ''No stores found.''"
| "label (Total_stores _) = ''Total Stores: ''"
| "label (Total_documents _) = ''Total Documents: ''"
| "label (Total_input_size _) = ''Total Input Size: ~''"
| "label (Estimated_storage_used _ _) = ''Estimated Storage Used: ~''"
| "label Free_tier_limit = ''Free Tier Limit: 1 GB''"
| "label (Remaining _ _) = ''Remaining: ~''"
| "label (Exceeds_free_tier _) = ''Exceeds free tier by ~''"

text \<open>
  The loop \<^verbatim>\<open>for store in stores\<close> of the global statistics, with its two
  accumulators. The \<^verbatim>\<open>try\<close> holds the listing, the sum with its division, and
  the two additions, in this order; the bare \<^verbatim>\<open>except: pass\<close> drops whatever
  the listing, the sum or the division raises and goes on with the next store, both
  accumulators unchanged.
\<close>

fun stats_loop ::
  "env \<Rightarrow> store list \<Rightarrow> nat \<Rightarrow> pyfloat \<Rightarrow> stats_line event list
     \<Rightarrow> nat \<times> pyfloat \<times> stats_line event list" where
  "stats_loop env [] total_docs total_size_mb tr = (total_docs, total_size_mb, tr)"
| "stats_loop env (st # rest) total_docs total_size_mb tr =
     (case documents_list env (length tr) (store_name st) of
        Inl e \<Rightarrow>
          stats_loop env rest total_docs total_size_mb
            (tr @ [Call (DocumentsList (store_name st))])
      | Inr docs \<Rightarrow>
          (case size_mb docs of
             Inl e \<Rightarrow>
               stats_loop env rest total_docs total_size_mb
                 (tr @ [Call (DocumentsList (store_name st))])
           | Inr store_size \<Rightarrow>
               stats_loop env rest (total_docs + length docs)
                 (float_add total_size_mb store_size)
                 (tr @ [Call (DocumentsList (store_name st))])))"

text \<open>
  The lines after the loop, from the three totals:
  \<^verbatim>\<open>estimated_storage_mb = total_size_mb * 3\<close>, its value in gigabytes
  \<^verbatim>\<open>estimated_storage_mb/1024\<close>, and below the free tier
  \<^verbatim>\<open>remaining = 1024 - estimated_storage_mb\<close> with \<^verbatim>\<open>remaining/1024*100\<close>.
\<close>

definition global_summary :: "nat \<Rightarrow> nat \<Rightarrow> pyfloat \<Rightarrow> stats_line list" where
  "global_summary n_stores total_docs total_size_mb =
     (let estimated_storage_mb = scaled total_size_mb 3 in
      [Total_stores n_stores,
       Total_documents total_docs,
       Total_input_size total_size_mb,
       Estimated_storage_used estimated_storage_mb (scaled estimated_storage_mb (1 / 1024)),
       Free_tier_limit] @
      (if float_less estimated_storage_mb 1024
       then [Remaining (float_add (Fin 1024) (float_neg estimated_storage_mb))
               (scaled (scaled (float_add (Fin 1024) (float_neg estimated_storage_mb)) (1 / 1024))
                  100)]
       else [Exceeds_free_tier (float_add estimated_storage_mb (Fin (- 1024)))]))"

text \<open>
  \<^verbatim>\<open>show_stats(store_name=None)\<close>. \<^verbatim>\<open>if store_name:\<close> takes the first branch
  for a non-empty name; there the \<^verbatim>\<open>try\<close> holds the listing, the sum with its
  division and the three prints, and \<^verbatim>\<open>except Exception\<close> prints the exception.
  In the global branch the listing of the stores is outside any \<^verbatim>\<open>try\<close>, and the
  totals start from the integer 0.
\<close>

definition show_stats_store :: "env \<Rightarrow> string \<Rightarrow> outcome \<times> stats_line event list" where
  "show_stats_store env store_nm =
     (case documents_list env 1 store_nm of
        Inl e \<Rightarrow>
          (Returned,
           [Print (Statistics_for_store store_nm), Call (DocumentsList store_nm),
            Print (Stats_error e)])
      | Inr docs \<Rightarrow>
          (case size_mb docs of
             Inl e \<Rightarrow>
               (Returned,
                [Print (Statistics_for_store store_nm), Call (DocumentsList store_nm),
                 Print (Stats_error e)])
           | Inr total_size \<Rightarrow>
               (Returned,
                [Print (Statistics_for_store store_nm), Call (DocumentsList store_nm),
                 Print (Documents (length docs)),
                 Print (Total_size total_size),
                 Print (Estimated_storage_with_embeddings (scaled total_size 3))])))"

definition show_stats_global :: "env \<Rightarrow> outcome \<times> stats_line event list" where
  "show_stats_global env =
     (case stores_list env 1 of
        Inl e \<Rightarrow> (Raised e, [Print Global_storage_statistics, Call StoresList])
      | Inr stores \<Rightarrow>
          (if stores = []
           then (Returned, [Print Global_storage_statistics, Call StoresList, Print No_stores_found])
           else
             (case stats_loop env stores 0 (Fin 0) [Print Global_storage_statistics, Call StoresList] of
                (total_docs, total_size_mb, tr) \<Rightarrow>
                  (Returned,
                   tr @ map Print (global_summary (length stores) total_docs total_size_mb)))))"

definition show_stats :: "env \<Rightarrow> string option \<Rightarrow> outcome \<times> stats_line event list" where
  "show_stats env store_nm =
     (case store_nm of
        None \<Rightarrow> show_stats_global env
      | Some n \<Rightarrow> if n = [] then show_stats_global env else show_stats_store env n)"

section \<open>Deletion: \<^verbatim>\<open>delete_store\<close> and \<^verbatim>\<open>remove_document\<close>\<close>

text \<open>
  \<^verbatim>\<open>str.lower\<close>: the ASCII capitals become small letters. (No character outside
  ASCII has \<^verbatim>\<open>y\<close>, \<^verbatim>\<open>e\<close> or \<^verbatim>\<open>s\<close> as its lower case, so the comparison with
  \<^verbatim>\<open>'yes'\<close> sees no difference.)
\<close>

definition lower_char :: "char \<Rightarrow> char" where
  "lower_char c =
     (case map_of (zip ''ABCDEFGHIJKLMNOPQRSTUVWXYZ'' ''abcdefghijklmnopqrstuvwxyz'') c of
        None \<Rightarrow> c
      | Some d \<Rightarrow> d)"

definition lower :: "string \<Rightarrow> string" where
  "lower s = map lower_char s"

datatype delete_line =
    Deleting_store string
  | Store_deleted_successfully
  | Deletion_cancelled
  | Error_deleting_store exn
  | Removing_document string
  | Document_removed_successfully
  | Removal_cancelled
  | Error_removing_document exn

text \<open>
  Both functions are one \<^verbatim>\<open>try\<close>: the prompt, the comparison
  \<^verbatim>\<open>confirm.lower() == 'yes'\<close>, the remote call. \<^verbatim>\<open>except Exception\<close> prints
  the exception of the read or of the call.
\<close>

definition delete_store :: "env \<Rightarrow> string \<Rightarrow> delete_line event list" where
  "delete_store env store_nm =
     (case console_input env 1 of
        Inl e \<Rightarrow> [Print (Deleting_store store_nm), ReadInput, Print (Error_deleting_store e)]
      | Inr confirm \<Rightarrow>
          (if lower confirm = ''yes''
           then
             (case stores_delete env 2 store_nm True of
                Inl e \<Rightarrow>
                  [Print (Deleting_store store_nm), ReadInput,
                   Call (StoresDelete store_nm True), Print (Error_deleting_store e)]
              | Inr u \<Rightarrow>
                  [Print (Deleting_store store_nm), ReadInput,
                   Call (StoresDelete store_nm True), Print Store_deleted_successfully])
           else [Print (Deleting_store store_nm), ReadInput, Print Deletion_cancelled]))"

definition remove_document :: "env \<Rightarrow> string \<Rightarrow> delete_line event list" where
  "remove_document env doc_id =
     (case console_input env 1 of
        Inl e \<Rightarrow> [Print (Removing_document doc_id), ReadInput, Print (Error_removing_document e)]
      | Inr confirm \<Rightarrow>
          (if lower confirm = ''yes''
           then
             (case delete_document env 2 doc_id of
                Inl e \<Rightarrow>
                  [Print (Removing_document doc_id), ReadInput,
                   Call (DeleteDocument doc_id), Print (Error_removing_document e)]
              | Inr u \<Rightarrow>
                  [Print (Removing_document doc_id), ReadInput,
                   Call (DeleteDocument doc_id), Print Document_removed_successfully])
           else [Print (Removing_document doc_id), ReadInput, Print Removal_cancelled]))"

section \<open>Queries: \<^verbatim>\<open>query_store\<close>\<close>

datatype query_line =
    Querying_store string
  | Question string
  | Answer string
  | Sources_header
  | Source string
  | Pages int int
  | No_sources_cited
  | Error_querying exn

text \<open>
  The loop over the grounding chunks: a chunk without the \<^verbatim>\<open>file_search\<close>
  attribute prints nothing; one with it prints the document's display name and, when
  it has a \<^verbatim>\<open>page_range\<close>, the pages.
\<close>

fun print_sources :: "grounding_chunk list \<Rightarrow> query_line list" where
  "print_sources [] = []"
| "print_sources (chunk # rest) =
     (case file_search chunk of
        None \<Rightarrow> print_sources rest
      | Some fs \<Rightarrow>
          (case page_range fs of
             None \<Rightarrow> Source (fs_document_display_name fs) # print_sources rest
           | Some (start_page, end_page) \<Rightarrow>
               Source (fs_document_display_name fs) # Pages start_page end_page
                 # print_sources rest))"

text \<open>
  \<^verbatim>\<open>query_store\<close> of \<^verbatim>\<open>query-store.py\<close> and of \<^verbatim>\<open>manage-filestore.py\<close>
  (the two bodies are the same). The whole body is one \<^verbatim>\<open>try\<close>;
  \<^verbatim>\<open>response.candidates[0]\<close> raises \<^verbatim>\<open>IndexError\<close> on an empty list.
\<close>

definition query_store :: "env \<Rightarrow> string \<Rightarrow> string \<Rightarrow> string \<Rightarrow> query_line event list" where
  "query_store env store_nm question model =
     (case generate_content env 2 model question store_nm of
        Inl e \<Rightarrow>
          [Print (Querying_store store_nm), Print (Question question),
           Call (GenerateContent model question store_nm), Print (Error_querying e)]
      | Inr resp \<Rightarrow>
          [Print (Querying_store store_nm), Print (Question question),
           Call (GenerateContent model question store_nm), Print (Answer (text_of resp))] @
          (case candidates resp of
             [] \<Rightarrow> [Print (Error_querying ''list index out of range'')]
           | cand # others \<Rightarrow>
               (case grounding_metadata cand of
                  None \<Rightarrow> [Print No_sources_cited]
                | Some gm \<Rightarrow> Print Sources_header # map Print (print_sources (grounding_chunks gm)))))"

text \<open>The citations a run shows: the names on its \<open>Source\<close> lines, in order.\<close>

definition citations :: "query_line event list \<Rightarrow> string list" where
  "citations tr = concat (map (\<lambda>l. case l of Source n \<Rightarrow> [n] | _ \<Rightarrow> []) (prints_of tr))"

definition is_error_line :: "query_line \<Rightarrow> bool" where
  "is_error_line l = (case l of Error_querying e \<Rightarrow> True | _ \<Rightarrow> False)"

section \<open>The demo: \<^verbatim>\<open>main\<close> of \<^verbatim>\<open>gemini-rag-zero.py\<close>\<close>

record demo_args =
  model_name :: string
  query :: "string option"

datatype demo_line =
    Creating_store string
  | Api_not_enabled
  | Invalid_api_key
  | Store_created string
  | Uploading_sample_documents
  | Demo_uploading string
  | Demo_file_not_found string
  | No_files_uploaded_cleaning_up
  | Uploaded_files nat
  | Asking_questions
  | Demo_question string
  | Demo_answer string
  | Demo_sources_header
  | Demo_source string
  | Cleaning_up
  | Store_deleted_all_done

definition sample_files :: "string list" where
  "sample_files = [''samples/sample1.pdf'', ''samples/sample2.pdf'', ''samples/sample3.pdf'']"

text \<open>
  The upload loop of the demo, with \<^verbatim>\<open>uploaded_count\<close>. It has no \<^verbatim>\<open>try\<close>: an
  exception of the submission or of a fetch leaves the loop and \<^verbatim>\<open>main\<close>.
\<close>

fun demo_upload_loop ::
  "env \<Rightarrow> string \<Rightarrow> string list \<Rightarrow> nat \<Rightarrow> demo_line event list
     \<Rightarrow> ((exn + nat) \<times> demo_line event list) option" where
  "demo_upload_loop env store_nm [] uploaded_count tr = Some (Inr uploaded_count, tr)"
| "demo_upload_loop env store_nm (file_path # rest) uploaded_count tr =
     (if path_exists env file_path
      then
        (case upload_to_store env (length tr + 1) file_path store_nm (upload_config_for file_path) of
           Inl e \<Rightarrow>
             Some (Inl e,
                   tr @ [Print (Demo_uploading file_path),
                         Call (UploadToStore file_path store_nm (upload_config_for file_path))])
         | Inr operation \<Rightarrow>
             (case wait_done env operation
                     (tr @ [Print (Demo_uploading file_path),
                            Call (UploadToStore file_path store_nm (upload_config_for file_path))]) of
                None \<Rightarrow> None
              | Some (Inl e, tr') \<Rightarrow> Some (Inl e, tr')
              | Some (Inr operation', tr') \<Rightarrow>
                  demo_upload_loop env store_nm rest (uploaded_count + 1) tr'))
      else demo_upload_loop env store_nm rest uploaded_count
             (tr @ [Print (Demo_file_not_found file_path)]))"

text \<open>\<^verbatim>\<open>if args.query:\<close> holds for a query that is given and not empty.\<close>

definition questions :: "demo_args \<Rightarrow> string list" where
  "questions args =
     (case query args of
        Some q \<Rightarrow>
          if q \<noteq> [] then [q]
          else [''Summarize the main topics covered in the documents.'',
                ''What are the key findings or recommendations?'',
                ''List any important dates or deadlines mentioned.'']
      | None \<Rightarrow>
          [''Summarize the main topics covered in the documents.'',
           ''What are the key findings or recommendations?'',
           ''List any important dates or deadlines mentioned.''])"

fun demo_sources :: "grounding_chunk list \<Rightarrow> demo_line list" where
  "demo_sources [] = []"
| "demo_sources (chunk # rest) =
     (case file_search chunk of
        None \<Rightarrow> demo_sources rest
      | Some fs \<Rightarrow> Demo_source (fs_document_display_name fs) # demo_sources rest)"

text \<open>The loop \<^verbatim>\<open>for q in questions\<close>; the result is the exception that left it, if any.\<close>

fun ask_loop ::
  "env \<Rightarrow> string \<Rightarrow> string \<Rightarrow> string list \<Rightarrow> demo_line event list
     \<Rightarrow> exn option \<times> demo_line event list" where
  "ask_loop env model store_nm [] tr = (None, tr)"
| "ask_loop env model store_nm (q # rest) tr =
     (case generate_content env (length tr + 1) model q store_nm of
        Inl e \<Rightarrow> (Some e, tr @ [Print (Demo_question q), Call (GenerateContent model q store_nm)])
      | Inr resp \<Rightarrow>
          (case candidates resp of
             [] \<Rightarrow>
               (Some ''list index out of range'',
                tr @ [Print (Demo_question q), Call (GenerateContent model q store_nm),
                      Print (Demo_answer (text_of resp))])
           | cand # others \<Rightarrow>
               (case grounding_metadata cand of
                  None \<Rightarrow>
                    ask_loop env model store_nm rest
                      (tr @ [Print (Demo_question q), Call (GenerateContent model q store_nm),
                             Print (Demo_answer (text_of resp))])
                | Some gm \<Rightarrow>
                    ask_loop env model store_nm rest
                      (tr @ [Print (Demo_question q), Call (GenerateContent model q store_nm),
                             Print (Demo_answer (text_of resp)), Print Demo_sources_header]
                          @ map Print (demo_sources (grounding_chunks gm))))))"

text \<open>
  The end of \<^verbatim>\<open>main\<close> once the upload loop is over: the early return when nothing
  was uploaded, else the questions and the final clean-up. Both deletions pass
  \<^verbatim>\<open>config={'force': True}\<close>.
\<close>

definition demo_finish ::
  "env \<Rightarrow> demo_args \<Rightarrow> string \<Rightarrow> nat \<Rightarrow> demo_line event list \<Rightarrow> outcome \<times> demo_line event list" where
  "demo_finish env args store_nm uploaded_count tr =
     (if uploaded_count = 0
      then
        (case stores_delete env (length tr + 1) store_nm True of
           Inl e \<Rightarrow>
             (Raised e, tr @ [Print No_files_uploaded_cleaning_up, Call (StoresDelete store_nm True)])
         | Inr u \<Rightarrow>
             (Returned, tr @ [Print No_files_uploaded_cleaning_up, Call (StoresDelete store_nm True)]))
      else
        (case ask_loop env (model_name args) store_nm (questions args)
                (tr @ [Print (Uploaded_files uploaded_count), Print Asking_questions]) of
           (Some e, tr') \<Rightarrow> (Raised e, tr')
         | (None, tr') \<Rightarrow>
             (case stores_delete env (length tr' + 1) store_nm True of
                Inl e \<Rightarrow> (Raised e, tr' @ [Print Cleaning_up, Call (StoresDelete store_nm True)])
              | Inr u \<Rightarrow>
                  (Returned,
                   tr' @ [Print Cleaning_up, Call (StoresDelete store_nm True),
                          Print Store_deleted_all_done]))))"

text \<open>
  \<^verbatim>\<open>main\<close>, from the parsed arguments. The creation of the store is in a
  \<^verbatim>\<open>try\<close> whose handler exits with status 1 on three known messages and raises the
  exception again otherwise.
\<close>

definition main :: "env \<Rightarrow> demo_args \<Rightarrow> (outcome \<times> demo_line event list) option" where
  "main env args =
     (case stores_create env 1 ''Company Knowledge Base - Demo'' of
        Inl e \<Rightarrow>
          (if sublist ''PERMISSION_DENIED'' e \<or> sublist ''SERVICE_DISABLED'' e
           then Some (Exited 1,
                      [Print (Creating_store (model_name args)),
                       Call (StoresCreate ''Company Knowledge Base - Demo''),
                       Print Api_not_enabled])
           else if sublist ''API_KEY_INVALID'' e
           then Some (Exited 1,
                      [Print (Creating_store (model_name args)),
                       Call (StoresCreate ''Company Knowledge Base - Demo''),
                       Print Invalid_api_key])
           else Some (Raised e,
                      [Print (Creating_store (model_name args)),
                       Call (StoresCreate ''Company Knowledge Base - Demo'')]))
      | Inr st \<Rightarrow>
          (case demo_upload_loop env (store_name st) sample_files 0
                  [Print (Creating_store (model_name args)),
                   Call (StoresCreate ''Company Knowledge Base - Demo''),
                   Print (Store_created (store_name st)),
                   Print Uploading_sample_documents] of
             None \<Rightarrow> None
           | Some (Inl e, tr) \<Rightarrow> Some (Raised e, tr)
           | Some (Inr uploaded_count, tr) \<Rightarrow>
               Some (demo_finish env args (store_name st) uploaded_count tr)))"

section \<open>What is read off a trace\<close>

text \<open>
  The properties below are stated on what a run shows. A store counts in the global
  statistics when its listing succeeded and the size of the listing could be
  computed; it counts with the number of its documents and with its size in
  megabytes. The listing of the \<open>i\<close>-th store is the call at moment \<open>t + i\<close>.
\<close>

fun counted :: "env \<Rightarrow> nat \<Rightarrow> store list \<Rightarrow> (nat \<times> pyfloat) list" where
  "counted env t [] = []"
| "counted env t (st # rest) =
     (case documents_list env t (store_name st) of
        Inl e \<Rightarrow> []
      | Inr docs \<Rightarrow> (case size_mb docs of Inl e \<Rightarrow> [] | Inr mb \<Rightarrow> [(length docs, mb)]))
       @ counted env (Suc t) rest"

text \<open>The environment whose failed listings answer with no document instead.\<close>

definition forgiving :: "env \<Rightarrow> env" where
  "forgiving env =
     env\<lparr>documents_list :=
           (\<lambda>t n. case documents_list env t n of Inl e \<Rightarrow> Inr [] | Inr docs \<Rightarrow> Inr docs)\<rparr>"

text \<open>
  The size a document is known to have: its \<^verbatim>\<open>size_bytes\<close> when that is an
  integer, and 0 when the attribute is absent.
\<close>

definition known_size :: "document \<Rightarrow> int" where
  "known_size doc = (case size_bytes doc of Some (Is_int n) \<Rightarrow> n | _ \<Rightarrow> 0)"

text \<open>An upload call carries the configuration the source writes for its file.\<close>

fun config_ok :: "remote_call \<Rightarrow> bool" where
  "config_ok (UploadToStore f s cfg) = (cfg = upload_config_for f)"
| "config_ok c = True"

text \<open>
  The files \<^verbatim>\<open>upload_files\<close> starts on: each prints that it is missing or that
  its upload begins.
\<close>

definition attempted_paths :: "upload_line event list \<Rightarrow> string list" where
  "attempted_paths tr =
     concat (map (\<lambda>l. case l of Uploading p \<Rightarrow> [p] | File_not_found p \<Rightarrow> [p] | _ \<Rightarrow> [])
                 (prints_of tr))"

section \<open>Example environments\<close>

text \<open>
  A remote service where every call succeeds, no local file exists, no store is
  listed and an operation is done at its first fetch. The other environments change
  single answers of it.
\<close>

definition pending_operation :: operation where
  "pending_operation =
     \<lparr>op_name = ''operations/1'', op_done = False, op_error = None, op_response = None\<rparr>"

definition done_operation :: operation where
  "done_operation =
     \<lparr>op_name = ''operations/2'', op_done = True, op_error = None, op_response = Some ''document''\<rparr>"

definition failed_operation :: operation where
  "failed_operation =
     \<lparr>op_name = ''operations/7'', op_done = True,
      op_error = Some ''INTERNAL: indexing failed'', op_response = None\<rparr>"

definition quiet_env :: env where
  "quiet_env =
     \<lparr>path_exists = (\<lambda>p. False),
      console_input = (\<lambda>t. Inr []),
      stores_create =
        (\<lambda>t n. Inr \<lparr>store_name = ''fileSearchStores/demo'', store_display_name = n\<rparr>),
      stores_list = (\<lambda>t. Inr []),
      documents_list = (\<lambda>t n. Inr []),
      upload_to_store = (\<lambda>t f s c. Inr pending_operation),
      import_file = (\<lambda>t s f c. Inr pending_operation),
      operations_get = (\<lambda>t p. Inr (p\<lparr>op_done := True, op_response := Some ''ok''\<rparr>)),
      generate_content =
        (\<lambda>t m q s. Inr \<lparr>text_of = ''answer'', candidates = [\<lparr>grounding_metadata = None\<rparr>]\<rparr>),
      stores_delete = (\<lambda>t n f. Inr ()),
      delete_document = (\<lambda>t n. Inr ())\<rparr>"

text \<open>Every file exists and every submitted operation ends done with an error.\<close>

definition failing_upload_env :: env where
  "failing_upload_env =
     quiet_env\<lparr>path_exists := (\<lambda>p. True),
               upload_to_store := (\<lambda>t f s c. Inr failed_operation),
               import_file := (\<lambda>t s f c. Inr failed_operation)\<rparr>"

text \<open>
  Two stores: the listing of the first fails (or, in the second environment, is
  empty), the second store holds documents of 10 MB and 20 MB.
\<close>

definition store_a :: store where
  "store_a = \<lparr>store_name = ''fileSearchStores/a'', store_display_name = ''A''\<rparr>"

definition store_b :: store where
  "store_b = \<lparr>store_name = ''fileSearchStores/b'', store_display_name = ''B''\<rparr>"

definition docs_b :: "document list" where
  "docs_b =
     [\<lparr>doc_name = ''fileSearchStores/b/documents/1'', doc_display_name = ''one.pdf'',
       size_bytes = Some (Is_int 10485760)\<rparr>,
      \<lparr>doc_name = ''fileSearchStores/b/documents/2'', doc_display_name = ''two.pdf'',
       size_bytes = Some (Is_int 20971520)\<rparr>]"

definition broken_listing_env :: env where
  "broken_listing_env =
     quiet_env\<lparr>stores_list := (\<lambda>t. Inr [store_a, store_b]),
               documents_list :=
                 (\<lambda>t n. if n = ''fileSearchStores/a'' then Inl ''503 UNAVAILABLE'' else Inr docs_b)\<rparr>"

definition empty_listing_env :: env where
  "empty_listing_env =
     quiet_env\<lparr>stores_list := (\<lambda>t. Inr [store_a, store_b]),
               documents_list :=
                 (\<lambda>t n. if n = ''fileSearchStores/a'' then Inr [] else Inr docs_b)\<rparr>"

text \<open>
  One store with a document whose size is \<^verbatim>\<open>None\<close> and a document of 10 MB;
  and the same store where the first document has no \<^verbatim>\<open>size_bytes\<close> attribute.
\<close>

definition docs_unsized :: "document list" where
  "docs_unsized =
     [\<lparr>doc_name = ''fileSearchStores/a/documents/1'', doc_display_name = ''scan.pdf'',
       size_bytes = Some Is_None\<rparr>,
      \<lparr>doc_name = ''fileSearchStores/a/documents/2'', doc_display_name = ''one.pdf'',
       size_bytes = Some (Is_int 10485760)\<rparr>]"

definition unsized_env :: env where
  "unsized_env =
     quiet_env\<lparr>stores_list := (\<lambda>t. Inr [store_a]), documents_list := (\<lambda>t n. Inr docs_unsized)\<rparr>"

definition docs_absent_size :: "document list" where
  "docs_absent_size =
     [\<lparr>doc_name = ''fileSearchStores/a/documents/1'', doc_display_name = ''scan.pdf'',
       size_bytes = None\<rparr>,
      \<lparr>doc_name = ''fileSearchStores/a/documents/2'', doc_display_name = ''one.pdf'',
       size_bytes = Some (Is_int 10485760)\<rparr>]"

definition absent_size_env :: env where
  "absent_size_env =
     quiet_env\<lparr>stores_list := (\<lambda>t. Inr [store_a]),
               documents_list := (\<lambda>t n. Inr docs_absent_size)\<rparr>"

text \<open>One local file exists.\<close>

definition ready_env :: env where
  "ready_env = quiet_env\<lparr>path_exists := (\<lambda>p. p = ''samples/sample1.pdf'')\<rparr>"

text \<open>Every file exists; the submission of the first sample raises.\<close>

definition flaky_env :: env where
  "flaky_env =
     quiet_env\<lparr>path_exists := (\<lambda>p. True),
               upload_to_store :=
                 (\<lambda>t f s c. if f = ''samples/sample1.pdf'' then Inl ''503 UNAVAILABLE''
                            else Inr done_operation)\<rparr>"

text \<open>What the user types at the prompt.\<close>

definition yes_env :: env where
  "yes_env = quiet_env\<lparr>console_input := (\<lambda>t. Inr ''Yes'')\<rparr>"

definition no_env :: env where
  "no_env = quiet_env\<lparr>console_input := (\<lambda>t. Inr ''y'')\<rparr>"

text \<open>A response with three grounding chunks, of which one names a document.\<close>

definition cited_chunk :: grounding_chunk where
  "cited_chunk =
     \<lparr>file_search = Some \<lparr>fs_document_display_name = ''report.pdf'', page_range = Some (2, 5)\<rparr>\<rparr>"

definition web_chunk :: grounding_chunk where
  "web_chunk = \<lparr>file_search = None\<rparr>"

definition grounded_env :: env where
  "grounded_env =
     quiet_env\<lparr>generate_content :=
       (\<lambda>t m q s. Inr \<lparr>text_of = ''The report says so.'',
                       candidates = [\<lparr>grounding_metadata =
                          Some \<lparr>grounding_chunks = [web_chunk, cited_chunk, web_chunk]\<rparr>\<rparr>]\<rparr>)\<rparr>"

text \<open>
  A response with no candidate, as the service gives for a blocked prompt; its text
  prints as \<open>None\<close>.
\<close>

definition no_candidate_env :: env where
  "no_candidate_env =
     quiet_env\<lparr>generate_content := (\<lambda>t m q s. Inr \<lparr>text_of = ''None'', candidates = []\<rparr>)\<rparr>"

text \<open>Arguments of the demo, and the trace of its run where the first sample exists.\<close>

definition demo_defaults :: demo_args where
  "demo_defaults = \<lparr>model_name = ''gemini-2.5-flash'', query = None\<rparr>"

definition demo_custom :: demo_args where
  "demo_custom = \<lparr>model_name = ''gemini-2.5-pro'', query = Some ''What are the main conclusions?''\<rparr>"

definition ready_trace :: "demo_line event list" where
  "ready_trace =
     [Print (Creating_store ''gemini-2.5-pro''),
      Call (StoresCreate ''Company Knowledge Base - Demo''),
      Print (Store_created ''fileSearchStores/demo''),
      Print Uploading_sample_documents,
      Print (Demo_uploading ''samples/sample1.pdf''),
      Call (UploadToStore ''samples/sample1.pdf'' ''fileSearchStores/demo''
              (upload_config_for ''samples/sample1.pdf'')),
      Sleep 2,
      Call (OperationsGet pending_operation),
      Print (Demo_file_not_found ''samples/sample2.pdf''),
      Print (Demo_file_not_found ''samples/sample3.pdf''),
      Print (Uploaded_files 1),
      Print Asking_questions,
      Print (Demo_question ''What are the main conclusions?''),
      Call (GenerateContent ''gemini-2.5-pro'' ''What are the main conclusions?''
              ''fileSearchStores/demo''),
      Print (Demo_answer ''answer''),
      Print Cleaning_up,
      Call (StoresDelete ''fileSearchStores/demo'' True),
      Print Store_deleted_all_done]"

section \<open>Traces\<close>

lemma calls_of_append: "calls_of (xs @ ys) = calls_of xs @ calls_of ys"
  by (simp add: calls_of_def)

lemma calls_of_Cons:
  "calls_of (Call c # xs) = c # calls_of xs"
  "calls_of (Print l # xs) = calls_of xs"
  "calls_of (Sleep n # xs) = calls_of xs"
  "calls_of (ReadInput # xs) = calls_of xs"
  "calls_of [] = []"
  by (simp_all add: calls_of_def)

lemma calls_of_map_Print: "calls_of (map Print ls) = []"
  by (induction ls) (simp_all add: calls_of_Cons)

lemma calls_of_map_Call: "calls_of (map (\<lambda>x. Call (f x)) xs) = map f xs"
  by (induction xs) (simp_all add: calls_of_Cons)

lemma prints_of_append: "prints_of (xs @ ys) = prints_of xs @ prints_of ys"
  by (simp add: prints_of_def)

lemma prints_of_Cons:
  "prints_of (Call c # xs) = prints_of xs"
  "prints_of (Print l # xs) = l # prints_of xs"
  "prints_of (Sleep n # xs) = prints_of xs"
  "prints_of (ReadInput # xs) = prints_of xs"
  "prints_of [] = []"
  by (simp_all add: prints_of_def)

lemma prints_of_map_Print: "prints_of (map Print ls) = ls"
  by (induction ls) (simp_all add: prints_of_Cons)

lemma prints_of_map_Call: "prints_of (map (\<lambda>x. Call (f x)) xs) = []"
  by (induction xs) (simp_all add: prints_of_Cons)

section \<open>The completion wait: what it returns and when\<close>

text \<open>
  Induction over the polls of a wait that returns: the operation was done at once, the
  first fetch raised, or the first fetch answered and the wait went on from there.
\<close>

lemma wait_done_induct [consumes 1, case_names finished raised polled]:
  assumes major: "wait_done env operation tr = Some r"
    and finished: "\<And>env operation tr. op_done operation \<Longrightarrow> P env operation tr (Inr operation, tr)"
    and raised: "\<And>env operation tr e.
        \<not> op_done operation \<Longrightarrow> operations_get env (length tr + 1) operation = Inl e \<Longrightarrow>
        P env operation tr (Inl e, tr @ [Sleep 2, Call (OperationsGet operation)])"
    and polled: "\<And>env operation tr operation' r.
        \<not> op_done operation \<Longrightarrow> operations_get env (length tr + 1) operation = Inr operation' \<Longrightarrow>
        wait_done env operation' (tr @ [Sleep 2, Call (OperationsGet operation)]) = Some r \<Longrightarrow>
        P env operation' (tr @ [Sleep 2, Call (OperationsGet operation)]) r \<Longrightarrow>
        P env operation tr r"
  shows "P env operation tr r"
proof -
  have "wait_done env operation tr = Some r \<longrightarrow> P env operation tr r"
  proof (rule wait_done.raw_induct
      [where P = "\<lambda>env operation tr r. wait_done env operation tr = Some r \<longrightarrow> P env operation tr r"])
    show "wait_done env operation tr = Some r" by (rule major)
  next
    fix wait :: "env \<Rightarrow> operation \<Rightarrow> 'a event list \<Rightarrow> ((exn + operation) \<times> 'a event list) option"
      and env operation tr r
    assume IH: "\<And>env operation tr r. wait env operation tr = Some r \<Longrightarrow>
                  wait_done env operation tr = Some r \<longrightarrow> P env operation tr r"
      and body: "(if op_done operation then Some (Inr operation, tr)
           else case operations_get env (length tr + 1) operation of
                  Inl e \<Rightarrow> Some (Inl e, tr @ [Sleep 2, Call (OperationsGet operation)])
                | Inr operation' \<Rightarrow> wait env operation' (tr @ [Sleep 2, Call (OperationsGet operation)])) = Some r"
    show "wait_done env operation tr = Some r \<longrightarrow> P env operation tr r"
    proof
      assume real: "wait_done env operation tr = Some r"
      show "P env operation tr r"
      proof (cases "op_done operation")
        case True
        with body have "r = (Inr operation, tr)" by simp
        with True finished show ?thesis by simp
      next
        case False
        show ?thesis
        proof (cases "operations_get env (length tr + 1) operation")
          case (Inl e)
          with False body have "r = (Inl e, tr @ [Sleep 2, Call (OperationsGet operation)])" by simp
          with False Inl raised show ?thesis by simp
        next
          case (Inr operation')
          with False body
          have loc: "wait env operation' (tr @ [Sleep 2, Call (OperationsGet operation)]) = Some r"
            by simp
          from real False Inr
          have sub: "wait_done env operation' (tr @ [Sleep 2, Call (OperationsGet operation)]) = Some r"
            by (subst (asm) wait_done.simps) simp
          from IH [OF loc] sub
          have "P env operation' (tr @ [Sleep 2, Call (OperationsGet operation)]) r" by simp
          with False Inr sub show ?thesis by (rule polled)
        qed
      qed
    qed
  qed
  with major show ?thesis by simp
qed

lemma wait_done_done:
  assumes "wait_done env operation tr = Some (Inr operation', tr')"
  shows "op_done operation'"
proof -
  have "\<forall>operation' tr'. r = (Inr operation', tr') \<longrightarrow> op_done operation'"
    if "wait_done env operation tr = Some r" for r
    using that by (induction rule: wait_done_induct) auto
  with assms show ?thesis by blast
qed

lemma wait_done_never:
  assumes never: "\<forall>t p. \<exists>p'. operations_get env t p = Inr p' \<and> \<not> op_done p'"
    and pending: "\<not> op_done operation"
  shows "wait_done env operation tr = None"
proof (cases "wait_done env operation tr")
  case None
  then show ?thesis .
next
  case (Some r)
  then have "(\<forall>t p. \<exists>p'. operations_get env t p = Inr p' \<and> \<not> op_done p') \<longrightarrow> op_done operation"
  proof (induction rule: wait_done_induct)
    case (finished env operation tr)
    then show ?case by simp
  next
    case (raised env operation tr e)
    then show ?case by (metis sum.distinct(1))
  next
    case (polled env operation tr operation' r)
    then show ?case by (metis sum.inject(2))
  qed
  with never pending show ?thesis by blast
qed

lemma wait_done_raised:
  assumes "wait_done env operation tr = Some (Inl e, tr')"
  shows "\<exists>t p. operations_get env t p = Inl e"
proof -
  have "\<forall>e tr'. r = (Inl e, tr') \<longrightarrow> (\<exists>t p. operations_get env t p = Inl e)"
    if "wait_done env operation tr = Some r" for r
    using that by (induction rule: wait_done_induct) auto
  with assms show ?thesis by blast
qed

text \<open>A wait adds only its sleeps and its fetches to the trace.\<close>

lemma wait_done_trace:
  assumes "wait_done env operation tr = Some r"
  shows "\<exists>ext. snd r = tr @ ext \<and> (\<forall>ev \<in> set ext. ev = Sleep 2 \<or> (\<exists>p. ev = Call (OperationsGet p)))"
  using assms
proof (induction rule: wait_done_induct)
  case (finished env operation tr)
  then show ?case by simp
next
  case (raised env operation tr e)
  then show ?case by simp
next
  case (polled env operation tr operation' r)
  then obtain ext where
    ext: "snd r = (tr @ [Sleep 2, Call (OperationsGet operation)]) @ ext"
    "\<forall>ev \<in> set ext. ev = Sleep 2 \<or> (\<exists>p. ev = Call (OperationsGet p))"
    by blast
  have "snd r = tr @ ([Sleep 2, Call (OperationsGet operation)] @ ext)"
    using ext(1) by simp
  moreover have "\<forall>ev \<in> set ([Sleep 2, Call (OperationsGet operation)] @ ext).
                    ev = Sleep 2 \<or> (\<exists>p. ev = Call (OperationsGet p))"
    using ext(2) by auto
  ultimately show ?case by blast
qed

lemma wait_done_prints:
  assumes "wait_done env operation tr = Some (r, tr')"
  shows "prints_of tr' = prints_of tr"
proof -
  from wait_done_trace [OF assms] obtain ext where
    ext: "tr' = tr @ ext" "\<forall>ev \<in> set ext. ev = Sleep 2 \<or> (\<exists>p. ev = Call (OperationsGet p))"
    by auto
  have "prints_of ext = []"
    using ext(2) by (induction ext) (auto simp: prints_of_Cons)
  with ext(1) show ?thesis by (simp add: prints_of_append)
qed

lemma calls_of_wait_done:
  assumes "wait_done env operation tr = Some (r, tr')"
    and "list_all config_ok (calls_of tr)"
  shows "list_all config_ok (calls_of tr')"
proof -
  from wait_done_trace [OF assms(1)] obtain ext where
    ext: "tr' = tr @ ext" "\<forall>ev \<in> set ext. ev = Sleep 2 \<or> (\<exists>p. ev = Call (OperationsGet p))"
    by auto
  have "list_all config_ok (calls_of ext)"
    using ext(2) by (induction ext) (auto simp: calls_of_Cons)
  with assms(2) ext(1) show ?thesis by (simp add: calls_of_append)
qed

text \<open>
  C1. The claim: in every completion wait (\<^verbatim>\<open>upload_files\<close>, \<^verbatim>\<open>import_files\<close>,
  the demo) a result is reported only once a fetched state is done, and the report is
  Failed exactly when the done operation carries an error, Success exactly when it
  carries a response. \<^verbatim>\<open>upload_files\<close> does not read \<^verbatim>\<open>operation.error\<close>:
  where every file exists and the submitted operation comes back done with the error
  \<open>INTERNAL: indexing failed\<close> and no response, it prints the success line and counts
  the file as uploaded (1 of 1), and the demo counts its three samples as uploaded.
  \<^verbatim>\<open>import_files\<close>, on the same operation, prints the failure and counts 0 of 1.
\<close>

theorem C1_upload_reports_success_on_failed_operation:
  "upload_files failing_upload_env ''fileSearchStores/s'' [''a.pdf''] =
     Some [Print (Uploading_files_to_store ''fileSearchStores/s''),
           Print (Uploading ''a.pdf''),
           Call (UploadToStore ''a.pdf'' ''fileSearchStores/s'' (upload_config_for ''a.pdf'')),
           Print Uploaded_successfully,
           Print (Uploaded_total 1 1)]
   \<and> import_files failing_upload_env ''fileSearchStores/s'' [''files/a''] None =
     Some [Print (Importing_files_to_store ''fileSearchStores/s''),
           Print (Importing ''files/a''),
           Call (ImportFile ''fileSearchStores/s'' ''files/a'' None),
           Print (Import_failed ''INTERNAL: indexing failed''),
           Print (Imported_total 0 1)]
   \<and> main failing_upload_env demo_custom =
     Some (Returned,
           [Print (Creating_store ''gemini-2.5-pro''),
            Call (StoresCreate ''Company Knowledge Base - Demo''),
            Print (Store_created ''fileSearchStores/demo''),
            Print Uploading_sample_documents,
            Print (Demo_uploading ''samples/sample1.pdf''),
            Call (UploadToStore ''samples/sample1.pdf'' ''fileSearchStores/demo''
                    (upload_config_for ''samples/sample1.pdf'')),
            Print (Demo_uploading ''samples/sample2.pdf''),
            Call (UploadToStore ''samples/sample2.pdf'' ''fileSearchStores/demo''
                    (upload_config_for ''samples/sample2.pdf'')),
            Print (Demo_uploading ''samples/sample3.pdf''),
            Call (UploadToStore ''samples/sample3.pdf'' ''fileSearchStores/demo''
                    (upload_config_for ''samples/sample3.pdf'')),
            Print (Uploaded_files 3),
            Print Asking_questions,
            Print (Demo_question ''What are the main conclusions?''),
            Call (GenerateContent ''gemini-2.5-pro'' ''What are the main conclusions?''
                    ''fileSearchStores/demo''),
            Print (Demo_answer ''answer''),
            Print Cleaning_up,
            Call (StoresDelete ''fileSearchStores/demo'' True),
            Print Store_deleted_all_done])"
  by (simp add: upload_files_def import_files_def main_def failing_upload_env_def quiet_env_def
      failed_operation_def wait_done.simps import_config_def demo_custom_def sample_files_def
      demo_finish_def questions_def)

section \<open>Statistics\<close>

subsection \<open>Sums and floats\<close>

lemmas eval_double = nearest_double_def ilog2_def compute_bitlen pow2_def round_half_even_def

lemma py_sum_None: "Is_None \<in> set vs \<Longrightarrow> py_sum acc vs = Inl int_plus_None"
proof (induction vs arbitrary: acc)
  case Nil
  then show ?case by simp
next
  case (Cons v vs)
  then show ?case by (cases v) auto
qed

lemma py_sum_known:
  "\<forall>doc \<in> set docs. size_bytes doc \<noteq> Some Is_None \<Longrightarrow>
   py_sum acc (map getattr_size_bytes docs) = Inr (acc + sum_list (map known_size docs))"
proof (induction docs arbitrary: acc)
  case Nil
  then show ?case by simp
next
  case (Cons doc docs)
  then have rest: "\<forall>doc \<in> set docs. size_bytes doc \<noteq> Some Is_None"
    and head: "size_bytes doc \<noteq> Some Is_None"
    by simp_all
  show ?case
  proof (cases "size_bytes doc")
    case None
    then show ?thesis
      using Cons.IH [OF rest] by (simp add: getattr_size_bytes_def known_size_def)
  next
    case (Some v)
    with head obtain n where "v = Is_int n" by (cases v) auto
    with Some show ?thesis
      using Cons.IH [OF rest] by (simp add: getattr_size_bytes_def known_size_def)
  qed
qed

text \<open>
  A listing with a document whose size is \<^verbatim>\<open>None\<close> has no size; one without
  has the quotient of the sum of the known sizes, as a float.
\<close>

lemma size_mb_None:
  "doc \<in> set docs \<Longrightarrow> size_bytes doc = Some Is_None \<Longrightarrow> size_mb docs = Inl int_plus_None"
proof -
  assume "doc \<in> set docs" and "size_bytes doc = Some Is_None"
  then have "Is_None \<in> set (map getattr_size_bytes docs)"
    by (force simp: getattr_size_bytes_def)
  then show ?thesis by (simp add: size_mb_def py_sum_None)
qed

lemma size_mb_known:
  "\<forall>doc \<in> set docs. size_bytes doc \<noteq> Some Is_None \<Longrightarrow>
   size_mb docs = true_div (sum_list (map known_size docs)) (1024 * 1024)"
  by (simp add: size_mb_def py_sum_known)

lemma size_mb_Nil: "size_mb [] = Inr (Fin 0)"
  by (simp add: size_mb_def true_div_def nearest_double_def)

lemma float_add_zero: "float_add x (Fin 0) = x"
  by (simp add: float_add_def)

text \<open>
  The division rounds: \<open>2 ^ 53 + 1\<close> bytes are shown as 8589934592 megabytes, which
  is the size of \<open>2 ^ 53\<close> bytes.
\<close>

lemma true_div_rounds: "true_div 9007199254740993 (1024 * 1024) = Inr (Fin 8589934592)"
  by (simp add: true_div_def eval_double)

text \<open>The sizes of the example listings.\<close>

lemma size_mb_docs_b: "size_mb docs_b = Inr (Fin 30)"
  by (simp add: size_mb_def docs_b_def getattr_size_bytes_def true_div_def eval_double)

lemma size_mb_docs_absent_size: "size_mb docs_absent_size = Inr (Fin 10)"
  by (simp add: size_mb_def docs_absent_size_def getattr_size_bytes_def true_div_def eval_double)

lemma size_mb_docs_unsized: "size_mb docs_unsized = Inl int_plus_None"
  by (simp add: size_mb_def docs_unsized_def getattr_size_bytes_def)

lemma summary_of_nothing:
  "global_summary n 0 (Fin 0) =
     [Total_stores n, Total_documents 0, Total_input_size (Fin 0),
      Estimated_storage_used (Fin 0) (Fin 0), Free_tier_limit, Remaining (Fin 1024) (Fin 100)]"
  by (simp add: global_summary_def Let_def scaled_def float_less_def float_add_def float_neg_def
      eval_double)

lemma summary_of_30_MB:
  "global_summary n d (Fin 30) =
     [Total_stores n, Total_documents d, Total_input_size (Fin 30),
      Estimated_storage_used (Fin 90) (Fin (45 / 512)), Free_tier_limit,
      Remaining (Fin 934) (Fin (11675 / 128))]"
  by (simp add: global_summary_def Let_def scaled_def float_less_def float_add_def float_neg_def
      eval_double)

lemma estimate_of_10_MB: "scaled (Fin 10) 3 = Fin 30"
  by (simp add: scaled_def eval_double)

lemma estimate_of_30_MB: "scaled (Fin 30) 3 = Fin 90"
  by (simp add: scaled_def eval_double)

subsection \<open>The global statistics\<close>

text \<open>The loop over the stores, in closed form.\<close>

lemma stats_loop_eq:
  "stats_loop env stores total_docs total_size_mb tr =
     (total_docs + sum_list (map fst (counted env (length tr) stores)),
      foldl float_add total_size_mb (map snd (counted env (length tr) stores)),
      tr @ map (\<lambda>st. Call (DocumentsList (store_name st))) stores)"
proof (induction stores arbitrary: total_docs total_size_mb tr)
  case Nil
  then show ?case by simp
next
  case (Cons st rest)
  show ?case
  proof (cases "documents_list env (length tr) (store_name st)")
    case (Inl e)
    then show ?thesis by (simp add: Cons.IH)
  next
    case (Inr docs)
    then show ?thesis by (cases "size_mb docs") (simp_all add: Cons.IH)
  qed
qed

text \<open>A failed listing and an empty listing leave the loop in the same state.\<close>

lemma stats_loop_forgiving:
  "stats_loop (forgiving env) stores total_docs total_size_mb tr =
   stats_loop env stores total_docs total_size_mb tr"
proof (induction stores arbitrary: total_docs total_size_mb tr)
  case Nil
  then show ?case by simp
next
  case (Cons st rest)
  show ?case
  proof (cases "documents_list env (length tr) (store_name st)")
    case (Inl e)
    then have "documents_list (forgiving env) (length tr) (store_name st) = Inr []"
      by (simp add: forgiving_def)
    with Inl show ?thesis by (simp add: Cons.IH size_mb_Nil float_add_zero)
  next
    case (Inr docs)
    then have "documents_list (forgiving env) (length tr) (store_name st) = Inr docs"
      by (simp add: forgiving_def)
    with Inr show ?thesis by (cases "size_mb docs") (simp_all add: Cons.IH)
  qed
qed

lemma show_stats_global_forgiving: "show_stats_global (forgiving env) = show_stats_global env"
proof -
  have "stores_list (forgiving env) = stores_list env" by (simp add: forgiving_def)
  then show ?thesis
    by (simp add: show_stats_global_def stats_loop_forgiving split: sum.splits)
qed

lemma show_stats_global_run:
  assumes "stores_list env 1 = Inr stores" and "stores \<noteq> []"
  shows "show_stats_global env =
     (Returned,
      [Print Global_storage_statistics, Call StoresList]
        @ map (\<lambda>st. Call (DocumentsList (store_name st))) stores
        @ map Print (global_summary (length stores) (sum_list (map fst (counted env 2 stores)))
                       (foldl float_add (Fin 0) (map snd (counted env 2 stores)))))"
  using assms by (simp add: show_stats_global_def stats_loop_eq numeral_2_eq_2)

text \<open>
  C2. The claim: in the global statistics a failed document listing of one store does
  not abort the aggregation, the store counts as zero, and a warning flag is set on the
  summary, so that the failure is never dropped silently. The source's handler is
  \<^verbatim>\<open>except: pass\<close> and the summary has no flag. The amended claim, proved here:
  the whole run, outcome and trace, is the one of the environment where each failed
  listing answers with no document instead, so that the failure leaves no mark; and
  where stores are listed the run returns after listing the documents of every store
  in order, and its summary holds the number of stores, the number of documents of
  the stores that count and the sum of their sizes, a store whose listing failed
  adding no document and no byte.
\<close>

theorem C2_failed_listing_is_dropped_silently:
  "show_stats env None = show_stats (forgiving env) None
   \<and> (\<exists>docs. documents_list (forgiving env) t n = Inr docs)
   \<and> (stores_list env 1 = Inr stores \<and> stores \<noteq> [] \<longrightarrow>
        fst (show_stats env None) = Returned
        \<and> calls_of (snd (show_stats env None)) = StoresList # map (\<lambda>st. DocumentsList (store_name st)) stores
        \<and> prints_of (snd (show_stats env None)) =
            Global_storage_statistics #
            global_summary (length stores) (sum_list (map fst (counted env 2 stores)))
              (foldl float_add (Fin 0) (map snd (counted env 2 stores))))"
proof -
  have same: "show_stats env None = show_stats (forgiving env) None"
    by (simp add: show_stats_def show_stats_global_forgiving)
  have answers: "\<exists>docs. documents_list (forgiving env) t n = Inr docs"
    by (cases "documents_list env t n") (simp_all add: forgiving_def)
  have summary: "fst (show_stats env None) = Returned
        \<and> calls_of (snd (show_stats env None)) = StoresList # map (\<lambda>st. DocumentsList (store_name st)) stores
        \<and> prints_of (snd (show_stats env None)) =
            Global_storage_statistics #
            global_summary (length stores) (sum_list (map fst (counted env 2 stores)))
              (foldl float_add (Fin 0) (map snd (counted env 2 stores)))"
    if a: "stores_list env 1 = Inr stores \<and> stores \<noteq> []"
  proof -
    from a have run: "show_stats env None =
       (Returned,
        [Print Global_storage_statistics, Call StoresList]
          @ map (\<lambda>st. Call (DocumentsList (store_name st))) stores
          @ map Print (global_summary (length stores) (sum_list (map fst (counted env 2 stores)))
                         (foldl float_add (Fin 0) (map snd (counted env 2 stores)))))"
      by (simp add: show_stats_def show_stats_global_run)
    have "fst (show_stats env None) = Returned" by (simp add: run)
    moreover have "calls_of (snd (show_stats env None)) =
        StoresList # map (\<lambda>st. DocumentsList (store_name st)) stores"
      by (simp add: run calls_of_append calls_of_Cons calls_of_map_Print calls_of_map_Call)
    moreover have "prints_of (snd (show_stats env None)) =
            Global_storage_statistics #
            global_summary (length stores) (sum_list (map fst (counted env 2 stores)))
              (foldl float_add (Fin 0) (map snd (counted env 2 stores)))"
      by (simp add: run prints_of_append prints_of_Cons prints_of_map_Print prints_of_map_Call)
    ultimately show ?thesis by blast
  qed
  from same answers summary show ?thesis by blast
qed

text \<open>
  With two stores, the first of which cannot be listed and the second of which holds
  documents of 10 MB and 20 MB: the run returns, both stores are listed, the summary
  counts 2 documents and 30 MB, and nothing tells the run from the one where the
  first store is empty.
\<close>

theorem C2_witness:
  "fst (show_stats broken_listing_env None) = Returned
   \<and> calls_of (snd (show_stats broken_listing_env None)) =
       [StoresList, DocumentsList ''fileSearchStores/a'', DocumentsList ''fileSearchStores/b'']
   \<and> prints_of (snd (show_stats broken_listing_env None)) =
       Global_storage_statistics # global_summary 2 2 (Fin 30)
   \<and> show_stats broken_listing_env None = show_stats (forgiving broken_listing_env) None"
proof -
  have h: "stores_list broken_listing_env 1 = Inr [store_a, store_b] \<and> [store_a, store_b] \<noteq> []"
    by (simp add: broken_listing_env_def)
  have n: "map (\<lambda>st. DocumentsList (store_name st)) [store_a, store_b] =
             [DocumentsList ''fileSearchStores/a'', DocumentsList ''fileSearchStores/b'']"
    by (simp add: store_a_def store_b_def)
  note s = size_mb_docs_b
  have c: "counted broken_listing_env 2 [store_a, store_b] = [(2, Fin 30)]"
    by (simp add: broken_listing_env_def store_a_def store_b_def s) (simp add: docs_b_def)
  have l: "length [store_a, store_b] = 2"
    by simp
  have d: "sum_list (map fst [(2 :: nat, Fin 30)]) = 2"
    by simp
  have f: "foldl float_add (Fin 0) (map snd [(2 :: nat, Fin 30)]) = Fin 30"
    by (simp add: float_add_def)
  from C2_failed_listing_is_dropped_silently [of broken_listing_env _ _ "[store_a, store_b]"] h
  have "fst (show_stats broken_listing_env None) = Returned
     \<and> calls_of (snd (show_stats broken_listing_env None)) =
         StoresList # map (\<lambda>st. DocumentsList (store_name st)) [store_a, store_b]
     \<and> prints_of (snd (show_stats broken_listing_env None)) =
         Global_storage_statistics #
         global_summary (length [store_a, store_b])
           (sum_list (map fst (counted broken_listing_env 2 [store_a, store_b])))
           (foldl float_add (Fin 0) (map snd (counted broken_listing_env 2 [store_a, store_b])))
     \<and> show_stats broken_listing_env None = show_stats (forgiving broken_listing_env) None"
    by blast
  then show ?thesis unfolding n c l d f .
qed

text \<open>
  Against the claim as stated, on the spec's own example (one store whose listing
  fails, one with documents of 10 MB and 20 MB): the summary shows 2 documents and
  30 MB, and it is, line for line, the summary of the run in which the first store was
  listed and found empty. No warning is set.
\<close>

theorem C2_counterexample:
  "documents_list broken_listing_env 2 ''fileSearchStores/a'' = Inl ''503 UNAVAILABLE''
   \<and> documents_list empty_listing_env 2 ''fileSearchStores/a'' = Inr []
   \<and> show_stats broken_listing_env None = show_stats empty_listing_env None
   \<and> prints_of (snd (show_stats broken_listing_env None)) =
       [Global_storage_statistics, Total_stores 2, Total_documents 2, Total_input_size (Fin 30),
        Estimated_storage_used (Fin 90) (Fin (45 / 512)), Free_tier_limit,
        Remaining (Fin 934) (Fin (11675 / 128))]"
proof -
  note s = size_mb_docs_b
  have l: "length docs_b = 2"
    by (simp add: docs_b_def)
  have broken: "show_stats broken_listing_env None =
      (Returned,
       [Print Global_storage_statistics, Call StoresList,
        Call (DocumentsList ''fileSearchStores/a''), Call (DocumentsList ''fileSearchStores/b'')]
         @ map Print (global_summary 2 2 (Fin 30)))"
    by (simp add: show_stats_def show_stats_global_def broken_listing_env_def quiet_env_def
        store_a_def store_b_def s l float_add_def numeral_2_eq_2)
  have empty: "show_stats empty_listing_env None =
      (Returned,
       [Print Global_storage_statistics, Call StoresList,
        Call (DocumentsList ''fileSearchStores/a''), Call (DocumentsList ''fileSearchStores/b'')]
         @ map Print (global_summary 2 2 (Fin 30)))"
    by (simp add: show_stats_def show_stats_global_def empty_listing_env_def quiet_env_def
        store_a_def store_b_def s l size_mb_Nil float_add_def numeral_2_eq_2)
  have "documents_list broken_listing_env 2 ''fileSearchStores/a'' = Inl ''503 UNAVAILABLE''"
    by (simp add: broken_listing_env_def)
  moreover have "documents_list empty_listing_env 2 ''fileSearchStores/a'' = Inr []"
    by (simp add: empty_listing_env_def)
  moreover have "show_stats broken_listing_env None = show_stats empty_listing_env None"
    by (simp only: broken empty)
  moreover have "prints_of (snd (show_stats broken_listing_env None)) =
       [Global_storage_statistics, Total_stores 2, Total_documents 2, Total_input_size (Fin 30),
        Estimated_storage_used (Fin 90) (Fin (45 / 512)), Free_tier_limit,
        Remaining (Fin 934) (Fin (11675 / 128))]"
    by (simp add: broken summary_of_30_MB prints_of_def)
  ultimately show ?thesis by blast
qed

subsection \<open>A size that is \<^verbatim>\<open>None\<close>\<close>

text \<open>
  The statistics of one store whose listing holds a document with the size
  \<^verbatim>\<open>None\<close>: the error line, and no total.
\<close>

lemma show_stats_store_None:
  assumes "n \<noteq> []" and "documents_list env 1 n = Inr docs"
    and "doc \<in> set docs" and "size_bytes doc = Some Is_None"
  shows "show_stats env (Some n) =
     (Returned,
      [Print (Statistics_for_store n), Call (DocumentsList n), Print (Stats_error int_plus_None)])"
  using assms(1,2) size_mb_None [OF assms(3,4)]
  by (simp add: show_stats_def show_stats_store_def)

text \<open>
  The statistics of one store where no size is \<^verbatim>\<open>None\<close> and the quotient fits a
  float: the total is the sum of the known sizes over \<open>1024 * 1024\<close>, rounded to a
  float, and the estimate is 3 times that float, rounded again.
\<close>

lemma show_stats_store_known:
  assumes "n \<noteq> []" and "documents_list env 1 n = Inr docs"
    and "\<forall>doc \<in> set docs. size_bytes doc \<noteq> Some Is_None"
    and "true_div (sum_list (map known_size docs)) (1024 * 1024) = Inr total_size"
  shows "show_stats env (Some n) =
     (Returned,
      [Print (Statistics_for_store n), Call (DocumentsList n),
       Print (Documents (length docs)),
       Print (Total_size total_size),
       Print (Estimated_storage_with_embeddings (scaled total_size 3))])"
  using assms(1,2,4) size_mb_known [OF assms(3)]
  by (simp add: show_stats_def show_stats_store_def)

text \<open>
  C7. The claim: in every statistics aggregation the total input size is the sum of
  the known document sizes, an unknown size counting as 0, and the estimate is 3 times
  the total. The source reads a size with \<^verbatim>\<open>getattr(doc, 'size_bytes', 0)\<close>, which
  gives 0 for a document without the attribute and \<^verbatim>\<open>None\<close> for a document whose
  attribute is \<^verbatim>\<open>None\<close>; the sum then raises. With one store that holds a document
  of unknown size (\<^verbatim>\<open>None\<close>) and a document of 10 MB, the claim gives a total of
  10 MB and an estimate of 30 MB. The global statistics drop the store: they show 1
  store, 0 documents, 0 MB and an estimate of 0 MB. The statistics of the store show
  the error of the sum and no total. Where the same document has no
  \<^verbatim>\<open>size_bytes\<close> attribute, the statistics of the store show 2 documents, 10 MB
  and an estimate of 30 MB.
\<close>

theorem C7_unknown_size_is_not_counted_as_zero:
  "show_stats unsized_env None =
     (Returned,
      [Print Global_storage_statistics, Call StoresList,
       Call (DocumentsList ''fileSearchStores/a''),
       Print (Total_stores 1), Print (Total_documents 0), Print (Total_input_size (Fin 0)),
       Print (Estimated_storage_used (Fin 0) (Fin 0)), Print Free_tier_limit,
       Print (Remaining (Fin 1024) (Fin 100))])
   \<and> show_stats unsized_env (Some ''fileSearchStores/a'') =
     (Returned,
      [Print (Statistics_for_store ''fileSearchStores/a''),
       Call (DocumentsList ''fileSearchStores/a''),
       Print (Stats_error int_plus_None)])
   \<and> show_stats absent_size_env (Some ''fileSearchStores/a'') =
     (Returned,
      [Print (Statistics_for_store ''fileSearchStores/a''),
       Call (DocumentsList ''fileSearchStores/a''),
       Print (Documents 2), Print (Total_size (Fin 10)),
       Print (Estimated_storage_with_embeddings (Fin 30))])"
proof -
  note unsized = size_mb_docs_unsized
  note absent = size_mb_docs_absent_size
  have "show_stats unsized_env None =
     (Returned,
      [Print Global_storage_statistics, Call StoresList,
       Call (DocumentsList ''fileSearchStores/a'')] @ map Print (global_summary 1 0 (Fin 0)))"
    by (simp add: show_stats_def show_stats_global_def unsized_env_def quiet_env_def store_a_def
        unsized)
  then have "show_stats unsized_env None =
     (Returned,
      [Print Global_storage_statistics, Call StoresList,
       Call (DocumentsList ''fileSearchStores/a''),
       Print (Total_stores 1), Print (Total_documents 0), Print (Total_input_size (Fin 0)),
       Print (Estimated_storage_used (Fin 0) (Fin 0)), Print Free_tier_limit,
       Print (Remaining (Fin 1024) (Fin 100))])"
    by (simp add: summary_of_nothing)
  moreover have "show_stats unsized_env (Some ''fileSearchStores/a'') =
     (Returned,
      [Print (Statistics_for_store ''fileSearchStores/a''),
       Call (DocumentsList ''fileSearchStores/a''),
       Print (Stats_error int_plus_None)])"
    by (simp add: show_stats_def show_stats_store_def unsized_env_def unsized)
  moreover have "show_stats absent_size_env (Some ''fileSearchStores/a'') =
     (Returned,
      [Print (Statistics_for_store ''fileSearchStores/a''),
       Call (DocumentsList ''fileSearchStores/a''),
       Print (Documents 2), Print (Total_size (Fin 10)),
       Print (Estimated_storage_with_embeddings (Fin 30))])"
    by (simp add: show_stats_def show_stats_store_def absent_size_env_def absent
        estimate_of_10_MB) (simp add: docs_absent_size_def)
  ultimately show ?thesis by blast
qed

section \<open>Ingestion\<close>

text \<open>Every upload call of a run of \<^verbatim>\<open>upload_files\<close> or of the demo carries the written
  configuration: the loops add nothing else.\<close>

lemma upload_loop_config:
  "upload_loop env store_nm file_paths uploaded tr = Some (uploaded', tr') \<Longrightarrow>
   list_all config_ok (calls_of tr) \<Longrightarrow> list_all config_ok (calls_of tr')"
proof (induction file_paths arbitrary: uploaded tr)
  case Nil
  then show ?case by simp
next
  case (Cons file_path rest)
  let ?tr1 = "tr @ [Print (Uploading file_path),
                    Call (UploadToStore file_path store_nm (upload_config_for file_path))]"
  have ok1: "list_all config_ok (calls_of ?tr1)"
    using Cons.prems(2) by (simp add: calls_of_append calls_of_Cons)
  show ?case
  proof (cases "path_exists env file_path")
    case False
    with Cons.prems have "upload_loop env store_nm rest uploaded (tr @ [Print (File_not_found file_path)])
        = Some (uploaded', tr')" by simp
    moreover have "list_all config_ok (calls_of (tr @ [Print (File_not_found file_path)]))"
      using Cons.prems(2) by (simp add: calls_of_append calls_of_Cons)
    ultimately show ?thesis by (rule Cons.IH)
  next
    case True
    show ?thesis
    proof (cases "upload_to_store env (length tr + 1) file_path store_nm (upload_config_for file_path)")
      case (Inl e)
      with True Cons.prems(1)
      have "upload_loop env store_nm rest uploaded (?tr1 @ [Print (Error_uploading file_path e)])
              = Some (uploaded', tr')" by simp
      moreover have "list_all config_ok (calls_of (?tr1 @ [Print (Error_uploading file_path e)]))"
        using ok1 by (simp add: calls_of_append calls_of_Cons)
      ultimately show ?thesis by (rule Cons.IH)
    next
      case (Inr operation)
      show ?thesis
      proof (cases "wait_done env operation ?tr1")
        case None
        with True Inr Cons.prems(1) show ?thesis by simp
      next
        case (Some w)
        obtain r tr2 where w: "w = (r, tr2)" by (cases w)
        from Some w have ok2: "list_all config_ok (calls_of tr2)"
          using calls_of_wait_done ok1 by blast
        show ?thesis
        proof (cases r)
          case (Inl e)
          with True Inr Some w Cons.prems(1)
          have "upload_loop env store_nm rest uploaded (tr2 @ [Print (Error_uploading file_path e)])
                  = Some (uploaded', tr')" by simp
          moreover have "list_all config_ok (calls_of (tr2 @ [Print (Error_uploading file_path e)]))"
            using ok2 by (simp add: calls_of_append calls_of_Cons)
          ultimately show ?thesis by (rule Cons.IH)
        next
          case (Inr operation')
          with True \<open>upload_to_store env (length tr + 1) file_path store_nm (upload_config_for file_path) = Inr operation\<close>
            Some w Cons.prems(1)
          have "upload_loop env store_nm rest (uploaded + 1) (tr2 @ [Print Uploaded_successfully])
                  = Some (uploaded', tr')" by simp
          moreover have "list_all config_ok (calls_of (tr2 @ [Print Uploaded_successfully]))"
            using ok2 by (simp add: calls_of_append calls_of_Cons)
          ultimately show ?thesis by (rule Cons.IH)
        qed
      qed
    qed
  qed
qed

lemma upload_files_config:
  assumes "upload_files env store_nm file_paths = Some tr"
  shows "list_all config_ok (calls_of tr)"
proof -
  from assms obtain uploaded tr0 where
    loop: "upload_loop env store_nm file_paths 0 [Print (Uploading_files_to_store store_nm)] = Some (uploaded, tr0)"
    and tr: "tr = tr0 @ [Print (Uploaded_total uploaded (length file_paths))]"
    by (auto simp: upload_files_def split: option.splits)
  have "list_all config_ok (calls_of [Print (Uploading_files_to_store store_nm) :: upload_line event])"
    by (simp add: calls_of_Cons)
  with loop have "list_all config_ok (calls_of tr0)" by (rule upload_loop_config)
  with tr show ?thesis by (simp add: calls_of_append calls_of_Cons)
qed

lemma demo_upload_loop_config:
  "demo_upload_loop env store_nm file_paths uploaded_count tr = Some (r, tr') \<Longrightarrow>
   list_all config_ok (calls_of tr) \<Longrightarrow> list_all config_ok (calls_of tr')"
proof (induction file_paths arbitrary: uploaded_count tr)
  case Nil
  then show ?case by simp
next
  case (Cons file_path rest)
  let ?tr1 = "tr @ [Print (Demo_uploading file_path),
                    Call (UploadToStore file_path store_nm (upload_config_for file_path))]"
  have ok1: "list_all config_ok (calls_of ?tr1)"
    using Cons.prems(2) by (simp add: calls_of_append calls_of_Cons)
  show ?case
  proof (cases "path_exists env file_path")
    case False
    with Cons.prems have "demo_upload_loop env store_nm rest uploaded_count
        (tr @ [Print (Demo_file_not_found file_path)]) = Some (r, tr')" by simp
    moreover have "list_all config_ok (calls_of (tr @ [Print (Demo_file_not_found file_path)]))"
      using Cons.prems(2) by (simp add: calls_of_append calls_of_Cons)
    ultimately show ?thesis by (rule Cons.IH)
  next
    case True
    show ?thesis
    proof (cases "upload_to_store env (length tr + 1) file_path store_nm (upload_config_for file_path)")
      case (Inl e)
      with True Cons.prems(1) have "tr' = ?tr1" by simp
      with ok1 show ?thesis by simp
    next
      case (Inr operation)
      show ?thesis
      proof (cases "wait_done env operation ?tr1")
        case None
        with True Inr Cons.prems(1) show ?thesis by simp
      next
        case (Some w)
        obtain r2 tr2 where w: "w = (r2, tr2)" by (cases w)
        from Some w have ok2: "list_all config_ok (calls_of tr2)"
          using calls_of_wait_done ok1 by blast
        show ?thesis
        proof (cases r2)
          case (Inl e)
          with True Inr Some w Cons.prems(1) have "tr' = tr2" by simp
          with ok2 show ?thesis by simp
        next
          case (Inr operation')
          with True \<open>upload_to_store env (length tr + 1) file_path store_nm (upload_config_for file_path) = Inr operation\<close>
            Some w Cons.prems(1)
          have "demo_upload_loop env store_nm rest (uploaded_count + 1) tr2 = Some (r, tr')" by simp
          then show ?thesis using ok2 by (rule Cons.IH)
        qed
      qed
    qed
  qed
qed

lemma ask_loop_config:
  "ask_loop env model store_nm qs tr = (r, tr') \<Longrightarrow>
   list_all config_ok (calls_of tr) \<Longrightarrow> list_all config_ok (calls_of tr')"
proof (induction qs arbitrary: tr)
  case Nil
  then show ?case by simp
next
  case (Cons q rest)
  show ?case
  proof (cases "generate_content env (length tr + 1) model q store_nm")
    case (Inl e)
    with Cons.prems show ?thesis by (auto simp: calls_of_append calls_of_Cons)
  next
    case (Inr resp)
    show ?thesis
    proof (cases "candidates resp")
      case Nil
      with Inr Cons.prems show ?thesis by (auto simp: calls_of_append calls_of_Cons)
    next
      case (Cons cand others)
      show ?thesis
      proof (cases "grounding_metadata cand")
        case None
        with Inr Cons Cons.prems(1)
        have "ask_loop env model store_nm rest
                (tr @ [Print (Demo_question q), Call (GenerateContent model q store_nm),
                       Print (Demo_answer (text_of resp))]) = (r, tr')" by simp
        moreover have "list_all config_ok (calls_of
                (tr @ [Print (Demo_question q), Call (GenerateContent model q store_nm),
                       Print (Demo_answer (text_of resp))]))"
          using Cons.prems(2) by (simp add: calls_of_append calls_of_Cons)
        ultimately show ?thesis by (rule Cons.IH)
      next
        case (Some gm)
        with Inr Cons Cons.prems(1)
        have "ask_loop env model store_nm rest
                (tr @ [Print (Demo_question q), Call (GenerateContent model q store_nm),
                       Print (Demo_answer (text_of resp)), Print Demo_sources_header]
                    @ map Print (demo_sources (grounding_chunks gm))) = (r, tr')" by simp
        moreover have "list_all config_ok (calls_of
                (tr @ [Print (Demo_question q), Call (GenerateContent model q store_nm),
                       Print (Demo_answer (text_of resp)), Print Demo_sources_header]
                    @ map Print (demo_sources (grounding_chunks gm))))"
          using Cons.prems(2) by (simp add: calls_of_append calls_of_Cons calls_of_map_Print)
        ultimately show ?thesis by (rule Cons.IH)
      qed
    qed
  qed
qed

lemma demo_finish_config:
  assumes "demo_finish env args store_nm uploaded_count tr = (out, tr')"
    and "list_all config_ok (calls_of tr)"
  shows "list_all config_ok (calls_of tr')"
proof (cases "uploaded_count = 0")
  case True
  with assms show ?thesis
    by (auto simp: demo_finish_def calls_of_append calls_of_Cons split: sum.splits)
next
  case False
  obtain r tr2 where ask: "ask_loop env (model_name args) store_nm (questions args)
        (tr @ [Print (Uploaded_files uploaded_count), Print Asking_questions]) = (r, tr2)"
    by (cases "ask_loop env (model_name args) store_nm (questions args)
        (tr @ [Print (Uploaded_files uploaded_count), Print Asking_questions])")
  have "list_all config_ok (calls_of (tr @ [Print (Uploaded_files uploaded_count), Print Asking_questions]))"
    using assms(2) by (simp add: calls_of_append calls_of_Cons)
  with ask have "list_all config_ok (calls_of tr2)" by (rule ask_loop_config)
  with assms(1) False ask show ?thesis
    by (auto simp: demo_finish_def calls_of_append calls_of_Cons split: sum.splits option.splits)
qed

lemma main_config:
  assumes "main env args = Some (out, tr)"
  shows "list_all config_ok (calls_of tr)"
proof (cases "stores_create env 1 ''Company Knowledge Base - Demo''")
  case (Inl e)
  with assms show ?thesis
    by (auto simp: main_def calls_of_Cons split: if_splits)
next
  case (Inr st)
  let ?tr0 = "[Print (Creating_store (model_name args)),
               Call (StoresCreate ''Company Knowledge Base - Demo''),
               Print (Store_created (store_name st)),
               Print Uploading_sample_documents]"
  have ok0: "list_all config_ok (calls_of ?tr0)" by (simp add: calls_of_Cons)
  from assms Inr obtain w where
    loop: "demo_upload_loop env (store_name st) sample_files 0 ?tr0 = Some w"
    by (auto simp: main_def split: option.splits)
  obtain r tr1 where w: "w = (r, tr1)" by (cases w)
  from loop w ok0 have ok1: "list_all config_ok (calls_of tr1)"
    using demo_upload_loop_config by blast
  show ?thesis
  proof (cases r)
    case (Inl e)
    with assms \<open>stores_create env 1 ''Company Knowledge Base - Demo'' = Inr st\<close> loop w
    have "tr = tr1" by (simp add: main_def)
    with ok1 show ?thesis by simp
  next
    case (Inr uploaded_count)
    with assms \<open>stores_create env 1 ''Company Knowledge Base - Demo'' = Inr st\<close> loop w
    have "demo_finish env args (store_name st) uploaded_count tr1 = (out, tr)"
      by (simp add: main_def)
    then show ?thesis using ok1 by (rule demo_finish_config)
  qed
qed

lemma main_ready: "main ready_env demo_custom = Some (Returned, ready_trace)"
  by (simp add: main_def ready_env_def quiet_env_def demo_custom_def sample_files_def
      demo_finish_def questions_def wait_done.simps ready_trace_def pending_operation_def)

text \<open>
  \<^verbatim>\<open>upload_files\<close> starts on every file of its batch, in order, whatever happened
  to the files before it, provided its waits return.
\<close>

lemma attempted_paths_append:
  "attempted_paths (tr @ tr') = attempted_paths tr @ attempted_paths tr'"
  by (simp add: attempted_paths_def prints_of_append)

lemma upload_loop_attempts:
  "upload_loop env store_nm file_paths uploaded tr = Some (uploaded', tr') \<Longrightarrow>
   attempted_paths tr' = attempted_paths tr @ file_paths"
proof (induction file_paths arbitrary: uploaded tr)
  case Nil
  then show ?case by simp
next
  case (Cons file_path rest)
  let ?tr1 = "tr @ [Print (Uploading file_path),
                    Call (UploadToStore file_path store_nm (upload_config_for file_path))]"
  have a1: "attempted_paths ?tr1 = attempted_paths tr @ [file_path]"
    by (simp add: attempted_paths_def prints_of_append prints_of_Cons)
  show ?case
  proof (cases "path_exists env file_path")
    case False
    with Cons.prems have "upload_loop env store_nm rest uploaded (tr @ [Print (File_not_found file_path)])
        = Some (uploaded', tr')" by simp
    from Cons.IH [OF this] show ?thesis
      by (simp add: attempted_paths_def prints_of_append prints_of_Cons)
  next
    case True
    show ?thesis
    proof (cases "upload_to_store env (length tr + 1) file_path store_nm (upload_config_for file_path)")
      case (Inl e)
      with True Cons.prems
      have "upload_loop env store_nm rest uploaded (?tr1 @ [Print (Error_uploading file_path e)])
              = Some (uploaded', tr')" by simp
      from Cons.IH [OF this] a1 show ?thesis
        by (simp add: attempted_paths_def prints_of_append prints_of_Cons)
    next
      case (Inr operation)
      show ?thesis
      proof (cases "wait_done env operation ?tr1")
        case None
        with True Inr Cons.prems show ?thesis by simp
      next
        case (Some w)
        obtain r tr2 where w: "w = (r, tr2)" by (cases w)
        from Some w have "prints_of tr2 = prints_of ?tr1"
          using wait_done_prints by blast
        then have a2: "attempted_paths tr2 = attempted_paths tr @ [file_path]"
          using a1 by (simp add: attempted_paths_def)
        show ?thesis
        proof (cases r)
          case (Inl e)
          with True Inr Some w Cons.prems
          have "upload_loop env store_nm rest uploaded (tr2 @ [Print (Error_uploading file_path e)])
                  = Some (uploaded', tr')" by simp
          from Cons.IH [OF this] a2 show ?thesis
            by (simp add: attempted_paths_def prints_of_append prints_of_Cons)
        next
          case (Inr operation')
          with True \<open>upload_to_store env (length tr + 1) file_path store_nm (upload_config_for file_path) = Inr operation\<close>
            Some w Cons.prems
          have "upload_loop env store_nm rest (uploaded + 1) (tr2 @ [Print Uploaded_successfully])
                  = Some (uploaded', tr')" by simp
          from Cons.IH [OF this] a2 show ?thesis
            by (simp add: attempted_paths_def prints_of_append prints_of_Cons)
        qed
      qed
    qed
  qed
qed

lemma upload_files_attempts_every_file:
  assumes "upload_files env store_nm file_paths = Some tr"
  shows "attempted_paths tr = file_paths"
proof -
  from assms obtain uploaded tr0 where
    loop: "upload_loop env store_nm file_paths 0 [Print (Uploading_files_to_store store_nm)] = Some (uploaded, tr0)"
    and tr: "tr = tr0 @ [Print (Uploaded_total uploaded (length file_paths))]"
    by (auto simp: upload_files_def split: option.splits)
  from upload_loop_attempts [OF loop] tr show ?thesis
    by (simp add: attempted_paths_def prints_of_append prints_of_Cons)
qed

text \<open>
  C4. The claim: in every ingestion batch (\<^verbatim>\<open>upload_files\<close>, the demo) a failure on
  one file, a missing file or a failed submission or operation, does not halt the
  files after it. The upload loop of the demo has no \<^verbatim>\<open>try\<close>: where the three
  samples exist and the submission of the first raises \<open>503 UNAVAILABLE\<close>, the
  exception leaves \<^verbatim>\<open>main\<close> after that one call; the second and third sample are
  never submitted (and the store is not deleted). \<^verbatim>\<open>upload_files\<close>, on the same
  files and the same service, prints the error and uploads the other two.
\<close>

theorem C4_demo_stops_at_the_first_failed_submission:
  "main flaky_env demo_defaults =
     Some (Raised ''503 UNAVAILABLE'',
           [Print (Creating_store ''gemini-2.5-flash''),
            Call (StoresCreate ''Company Knowledge Base - Demo''),
            Print (Store_created ''fileSearchStores/demo''),
            Print Uploading_sample_documents,
            Print (Demo_uploading ''samples/sample1.pdf''),
            Call (UploadToStore ''samples/sample1.pdf'' ''fileSearchStores/demo''
                    (upload_config_for ''samples/sample1.pdf''))])
   \<and> upload_files flaky_env ''fileSearchStores/demo'' sample_files =
     Some [Print (Uploading_files_to_store ''fileSearchStores/demo''),
           Print (Uploading ''samples/sample1.pdf''),
           Call (UploadToStore ''samples/sample1.pdf'' ''fileSearchStores/demo''
                   (upload_config_for ''samples/sample1.pdf'')),
           Print (Error_uploading ''samples/sample1.pdf'' ''503 UNAVAILABLE''),
           Print (Uploading ''samples/sample2.pdf''),
           Call (UploadToStore ''samples/sample2.pdf'' ''fileSearchStores/demo''
                   (upload_config_for ''samples/sample2.pdf'')),
           Print Uploaded_successfully,
           Print (Uploading ''samples/sample3.pdf''),
           Call (UploadToStore ''samples/sample3.pdf'' ''fileSearchStores/demo''
                   (upload_config_for ''samples/sample3.pdf'')),
           Print Uploaded_successfully,
           Print (Uploaded_total 2 3)]"
  by (simp add: main_def upload_files_def flaky_env_def quiet_env_def demo_defaults_def
      sample_files_def done_operation_def wait_done.simps)

section \<open>The demo's clean-up\<close>

lemma demo_upload_loop_none_exist:
  "(\<forall>p \<in> set file_paths. \<not> path_exists env p) \<Longrightarrow>
   demo_upload_loop env store_nm file_paths uploaded_count tr =
     Some (Inr uploaded_count, tr @ map (\<lambda>p. Print (Demo_file_not_found p)) file_paths)"
  by (induction file_paths arbitrary: tr) simp_all

text \<open>
  C9. When none of the demo's sample files exists, the run does not end as a success:
  it prints that no file was uploaded, deletes (by force) the store it created, and
  returns without asking a question. The trace is exactly the one below, the deletion
  being its ninth event (the call at moment 8); the outcome is a return unless the
  deletion itself raises.
\<close>

theorem C9_nothing_uploaded_deletes_the_store:
  "(\<forall>p \<in> set sample_files. \<not> path_exists env p)
     \<and> stores_create env 1 ''Company Knowledge Base - Demo'' = Inr st \<longrightarrow>
   main env args =
     Some ((case stores_delete env 8 (store_name st) True of
              Inl e \<Rightarrow> Raised e
            | Inr u \<Rightarrow> Returned),
           [Print (Creating_store (model_name args)),
            Call (StoresCreate ''Company Knowledge Base - Demo''),
            Print (Store_created (store_name st)),
            Print Uploading_sample_documents]
           @ map (\<lambda>p. Print (Demo_file_not_found p)) sample_files
           @ [Print No_files_uploaded_cleaning_up, Call (StoresDelete (store_name st) True)])"
proof
  assume a: "(\<forall>p \<in> set sample_files. \<not> path_exists env p)
     \<and> stores_create env 1 ''Company Knowledge Base - Demo'' = Inr st"
  let ?tr0 = "[Print (Creating_store (model_name args)),
            Call (StoresCreate ''Company Knowledge Base - Demo''),
            Print (Store_created (store_name st)),
            Print Uploading_sample_documents]"
  from a have loop: "demo_upload_loop env (store_name st) sample_files 0 ?tr0 =
      Some (Inr 0, ?tr0 @ map (\<lambda>p. Print (Demo_file_not_found p)) sample_files)"
    by (simp add: demo_upload_loop_none_exist)
  have len: "length (?tr0 @ map (\<lambda>p. Print (Demo_file_not_found p)) sample_files) + 1 = 8"
    by (simp add: sample_files_def)
  have fin: "demo_finish env args (store_name st) 0 (?tr0 @ map (\<lambda>p. Print (Demo_file_not_found p)) sample_files)
     = ((case stores_delete env 8 (store_name st) True of
              Inl e \<Rightarrow> Raised e
            | Inr u \<Rightarrow> Returned),
        ?tr0 @ map (\<lambda>p. Print (Demo_file_not_found p)) sample_files
           @ [Print No_files_uploaded_cleaning_up, Call (StoresDelete (store_name st) True)])"
    unfolding demo_finish_def len by (simp split: sum.splits)
  from a loop fin show "main env args =
     Some ((case stores_delete env 8 (store_name st) True of
              Inl e \<Rightarrow> Raised e
            | Inr u \<Rightarrow> Returned),
           ?tr0 @ map (\<lambda>p. Print (Demo_file_not_found p)) sample_files
           @ [Print No_files_uploaded_cleaning_up, Call (StoresDelete (store_name st) True)])"
    by (simp add: main_def)
qed

text \<open>With no local file and a service that answers every call.\<close>

theorem C9_witness:
  "main quiet_env demo_custom =
     Some (Returned,
           [Print (Creating_store ''gemini-2.5-pro''),
            Call (StoresCreate ''Company Knowledge Base - Demo''),
            Print (Store_created ''fileSearchStores/demo''),
            Print Uploading_sample_documents,
            Print (Demo_file_not_found ''samples/sample1.pdf''),
            Print (Demo_file_not_found ''samples/sample2.pdf''),
            Print (Demo_file_not_found ''samples/sample3.pdf''),
            Print No_files_uploaded_cleaning_up,
            Call (StoresDelete ''fileSearchStores/demo'' True)])"
proof -
  let ?st = "\<lparr>store_name = ''fileSearchStores/demo'',
              store_display_name = ''Company Knowledge Base - Demo''\<rparr>"
  have h: "(\<forall>p \<in> set sample_files. \<not> path_exists quiet_env p)
     \<and> stores_create quiet_env 1 ''Company Knowledge Base - Demo'' = Inr ?st"
    by (simp add: quiet_env_def)
  have d: "stores_delete quiet_env 8 (store_name ?st) True = Inr ()"
    by (simp add: quiet_env_def)
  from C9_nothing_uploaded_deletes_the_store [of quiet_env ?st demo_custom] h
  have "main quiet_env demo_custom =
     Some ((case stores_delete quiet_env 8 (store_name ?st) True of
              Inl e \<Rightarrow> Raised e
            | Inr u \<Rightarrow> Returned),
           [Print (Creating_store (model_name demo_custom)),
            Call (StoresCreate ''Company Knowledge Base - Demo''),
            Print (Store_created (store_name ?st)),
            Print Uploading_sample_documents]
           @ map (\<lambda>p. Print (Demo_file_not_found p)) sample_files
           @ [Print No_files_uploaded_cleaning_up, Call (StoresDelete (store_name ?st) True)])"
    by blast
  then show ?thesis unfolding d by (simp add: demo_custom_def sample_files_def)
qed

lemma demo_finish_returned:
  assumes "demo_finish env args store_nm uploaded_count tr = (Returned, tr')"
  shows "\<exists>pre post. tr' = pre @ Call (StoresDelete store_nm True) # post \<and> calls_of post = []
           \<and> stores_delete env (length pre) store_nm True = Inr ()"
proof (cases "uploaded_count = 0")
  case True
  with assms have d: "stores_delete env (length tr + 1) store_nm True = Inr ()"
    and t: "tr' = tr @ [Print No_files_uploaded_cleaning_up, Call (StoresDelete store_nm True)]"
    by (auto simp: demo_finish_def split: sum.splits)
  have "tr' = (tr @ [Print No_files_uploaded_cleaning_up]) @ Call (StoresDelete store_nm True) # []"
    using t by simp
  moreover have "calls_of ([] :: demo_line event list) = []" by (simp add: calls_of_Cons)
  moreover have "stores_delete env (length (tr @ [Print No_files_uploaded_cleaning_up])) store_nm True = Inr ()"
    using d by simp
  ultimately show ?thesis by blast
next
  case False
  obtain r tr2 where ask: "ask_loop env (model_name args) store_nm (questions args)
        (tr @ [Print (Uploaded_files uploaded_count), Print Asking_questions]) = (r, tr2)"
    by (cases "ask_loop env (model_name args) store_nm (questions args)
        (tr @ [Print (Uploaded_files uploaded_count), Print Asking_questions])")
  from assms False ask have d: "stores_delete env (length tr2 + 1) store_nm True = Inr ()"
    and t: "tr' = tr2 @ [Print Cleaning_up, Call (StoresDelete store_nm True), Print Store_deleted_all_done]"
    by (auto simp: demo_finish_def split: sum.splits option.splits)
  have "tr' = (tr2 @ [Print Cleaning_up]) @ Call (StoresDelete store_nm True) # [Print Store_deleted_all_done]"
    using t by simp
  moreover have "calls_of [Print Store_deleted_all_done] = []" by (simp add: calls_of_Cons)
  moreover have "stores_delete env (length (tr2 @ [Print Cleaning_up])) store_nm True = Inr ()"
    using d by simp
  ultimately show ?thesis by blast
qed

text \<open>
  C10. Every run of the demo's \<^verbatim>\<open>main\<close> that returns has created its store and
  has issued, as its last remote call, the forced deletion of that store, and the
  deletion did not raise. This covers the return after no upload and the return after
  the questions.
\<close>

theorem C10_normal_return_has_deleted_the_store:
  "main env args = Some (Returned, tr) \<longrightarrow>
     (\<exists>st pre post.
        stores_create env 1 ''Company Knowledge Base - Demo'' = Inr st
        \<and> tr = pre @ Call (StoresDelete (store_name st) True) # post
        \<and> calls_of post = []
        \<and> stores_delete env (length pre) (store_name st) True = Inr ())"
proof
  assume m: "main env args = Some (Returned, tr)"
  show "\<exists>st pre post.
        stores_create env 1 ''Company Knowledge Base - Demo'' = Inr st
        \<and> tr = pre @ Call (StoresDelete (store_name st) True) # post
        \<and> calls_of post = []
        \<and> stores_delete env (length pre) (store_name st) True = Inr ()"
  proof (cases "stores_create env 1 ''Company Knowledge Base - Demo''")
    case (Inl e)
    with m show ?thesis by (auto simp: main_def split: if_splits)
  next
    case (Inr st)
    let ?tr0 = "[Print (Creating_store (model_name args)),
                 Call (StoresCreate ''Company Knowledge Base - Demo''),
                 Print (Store_created (store_name st)),
                 Print Uploading_sample_documents]"
    from m Inr obtain w where
      loop: "demo_upload_loop env (store_name st) sample_files 0 ?tr0 = Some w"
      by (auto simp: main_def split: option.splits)
    obtain r tr1 where w: "w = (r, tr1)" by (cases w)
    show ?thesis
    proof (cases r)
      case (Inl e)
      with m \<open>stores_create env 1 ''Company Knowledge Base - Demo'' = Inr st\<close> loop w
      show ?thesis by (simp add: main_def)
    next
      case (Inr uploaded_count)
      with m \<open>stores_create env 1 ''Company Knowledge Base - Demo'' = Inr st\<close> loop w
      have "demo_finish env args (store_name st) uploaded_count tr1 = (Returned, tr)"
        by (simp add: main_def)
      from demo_finish_returned [OF this]
        \<open>stores_create env 1 ''Company Knowledge Base - Demo'' = Inr st\<close>
      show ?thesis by blast
    qed
  qed
qed

text \<open>The run that uploads the first sample and asks one question.\<close>

theorem C10_witness:
  "main ready_env demo_custom = Some (Returned, ready_trace)
   \<and> (\<exists>st pre post.
        stores_create ready_env 1 ''Company Knowledge Base - Demo'' = Inr st
        \<and> ready_trace = pre @ Call (StoresDelete (store_name st) True) # post
        \<and> calls_of post = []
        \<and> stores_delete ready_env (length pre) (store_name st) True = Inr ())"
  using C10_normal_return_has_deleted_the_store [of ready_env demo_custom ready_trace] main_ready
  by blast

section \<open>Deletion\<close>

lemma lower_char_cases:
  "lower_char c = CHR ''y'' \<Longrightarrow> c = CHR ''y'' \<or> c = CHR ''Y''"
  "lower_char c = CHR ''e'' \<Longrightarrow> c = CHR ''e'' \<or> c = CHR ''E''"
  "lower_char c = CHR ''s'' \<Longrightarrow> c = CHR ''s'' \<or> c = CHR ''S''"
  by (auto simp: lower_char_def split: if_splits)

text \<open>The answers that \<^verbatim>\<open>confirm.lower() == 'yes'\<close> accepts.\<close>

lemma lower_yes_iff:
  "lower confirm = ''yes'' \<longleftrightarrow>
     confirm \<in> {''yes'', ''yeS'', ''yEs'', ''yES'', ''Yes'', ''YeS'', ''YEs'', ''YES''}"
proof
  assume a: "lower confirm = ''yes''"
  then obtain a1 a2 a3 where c: "confirm = [a1, a2, a3]"
    and l: "lower_char a1 = CHR ''y''" "lower_char a2 = CHR ''e''" "lower_char a3 = CHR ''s''"
    by (auto simp: lower_def map_eq_Cons_conv)
  from l have "a1 = CHR ''y'' \<or> a1 = CHR ''Y''" "a2 = CHR ''e'' \<or> a2 = CHR ''E''"
    "a3 = CHR ''s'' \<or> a3 = CHR ''S''"
    by (simp_all add: lower_char_cases)
  then show "confirm \<in> {''yes'', ''yeS'', ''yEs'', ''yES'', ''Yes'', ''YeS'', ''YEs'', ''YES''}"
    using c by auto
next
  assume "confirm \<in> {''yes'', ''yeS'', ''yEs'', ''yES'', ''Yes'', ''YeS'', ''YEs'', ''YES''}"
  then show "lower confirm = ''yes''"
    by (auto simp: lower_def lower_char_def)
qed

lemma deletion_confirmed:
  assumes "console_input env 1 = Inr confirm" and "lower confirm = ''yes''"
  shows "take 3 (delete_store env store_nm) =
        [Print (Deleting_store store_nm), ReadInput, Call (StoresDelete store_nm True)]"
    and "calls_of (delete_store env store_nm) = [StoresDelete store_nm True]"
    and "take 3 (remove_document env doc_id) =
        [Print (Removing_document doc_id), ReadInput, Call (DeleteDocument doc_id)]"
    and "calls_of (remove_document env doc_id) = [DeleteDocument doc_id]"
  using assms
  by (auto simp: delete_store_def remove_document_def calls_of_Cons split: sum.splits)

lemma deletion_declined:
  assumes "console_input env 1 = Inr confirm" and "lower confirm \<noteq> ''yes''"
  shows "delete_store env store_nm =
        [Print (Deleting_store store_nm), ReadInput, Print Deletion_cancelled]"
    and "remove_document env doc_id =
        [Print (Removing_document doc_id), ReadInput, Print Removal_cancelled]"
  using assms by (simp_all add: delete_store_def remove_document_def)

lemma deletion_no_answer:
  assumes "console_input env 1 = Inl e"
  shows "delete_store env store_nm =
        [Print (Deleting_store store_nm), ReadInput, Print (Error_deleting_store e)]"
    and "remove_document env doc_id =
        [Print (Removing_document doc_id), ReadInput, Print (Error_removing_document e)]"
  using assms by (simp_all add: delete_store_def remove_document_def)

text \<open>
  C5. The claim: every deletion of a store or of a document in the program is issued
  only after the user has typed \<^verbatim>\<open>yes\<close>, and without that answer nothing is
  called and nothing is raised. The demo's \<^verbatim>\<open>main\<close> deletes its own store with
  no question asked. The amended claim, proved here, is about the management
  commands \<^verbatim>\<open>delete_store\<close> and \<^verbatim>\<open>remove_document\<close>: the delete call is their
  only remote call, it comes right after the read of the answer, and it is issued
  exactly when the answer is \<^verbatim>\<open>yes\<close> in any mix of capitals and small letters; on
  any other answer they print that the deletion is cancelled and call nothing, and
  when the read itself fails they print the error and call nothing.
\<close>

theorem C5_cli_deletion_waits_for_yes:
  "(console_input env 1 = Inr confirm \<and> lower confirm = ''yes'' \<longrightarrow>
      take 3 (delete_store env store_nm) =
        [Print (Deleting_store store_nm), ReadInput, Call (StoresDelete store_nm True)]
      \<and> calls_of (delete_store env store_nm) = [StoresDelete store_nm True]
      \<and> take 3 (remove_document env doc_id) =
        [Print (Removing_document doc_id), ReadInput, Call (DeleteDocument doc_id)]
      \<and> calls_of (remove_document env doc_id) = [DeleteDocument doc_id])
   \<and> (console_input env 1 = Inr confirm \<and> lower confirm \<noteq> ''yes'' \<longrightarrow>
      delete_store env store_nm =
        [Print (Deleting_store store_nm), ReadInput, Print Deletion_cancelled]
      \<and> remove_document env doc_id =
        [Print (Removing_document doc_id), ReadInput, Print Removal_cancelled])
   \<and> (console_input env 1 = Inl e \<longrightarrow>
      delete_store env store_nm =
        [Print (Deleting_store store_nm), ReadInput, Print (Error_deleting_store e)]
      \<and> remove_document env doc_id =
        [Print (Removing_document doc_id), ReadInput, Print (Error_removing_document e)])
   \<and> (lower confirm = ''yes'') =
       (confirm \<in> {''yes'', ''yeS'', ''yEs'', ''yES'', ''Yes'', ''YeS'', ''YEs'', ''YES''})"
proof -
  have "take 3 (delete_store env store_nm) =
        [Print (Deleting_store store_nm), ReadInput, Call (StoresDelete store_nm True)]
      \<and> calls_of (delete_store env store_nm) = [StoresDelete store_nm True]
      \<and> take 3 (remove_document env doc_id) =
        [Print (Removing_document doc_id), ReadInput, Call (DeleteDocument doc_id)]
      \<and> calls_of (remove_document env doc_id) = [DeleteDocument doc_id]"
    if "console_input env 1 = Inr confirm \<and> lower confirm = ''yes''"
    using that deletion_confirmed by blast
  moreover have "delete_store env store_nm =
        [Print (Deleting_store store_nm), ReadInput, Print Deletion_cancelled]
      \<and> remove_document env doc_id =
        [Print (Removing_document doc_id), ReadInput, Print Removal_cancelled]"
    if "console_input env 1 = Inr confirm \<and> lower confirm \<noteq> ''yes''"
    using that deletion_declined by blast
  moreover have "delete_store env store_nm =
        [Print (Deleting_store store_nm), ReadInput, Print (Error_deleting_store e)]
      \<and> remove_document env doc_id =
        [Print (Removing_document doc_id), ReadInput, Print (Error_removing_document e)]"
    if "console_input env 1 = Inl e"
    using that deletion_no_answer by blast
  ultimately show ?thesis using lower_yes_iff [of confirm] by blast
qed

text \<open>The user types \<open>Yes\<close>: the calls are issued. The user types \<open>y\<close>: nothing is.\<close>

theorem C5_witness:
  "calls_of (delete_store yes_env ''fileSearchStores/a'') = [StoresDelete ''fileSearchStores/a'' True]
   \<and> calls_of (remove_document yes_env ''fileSearchStores/a/documents/1'') =
       [DeleteDocument ''fileSearchStores/a/documents/1'']
   \<and> delete_store no_env ''fileSearchStores/a'' =
       [Print (Deleting_store ''fileSearchStores/a''), ReadInput, Print Deletion_cancelled]
   \<and> remove_document no_env ''fileSearchStores/a/documents/1'' =
       [Print (Removing_document ''fileSearchStores/a/documents/1''), ReadInput, Print Removal_cancelled]"
proof -
  have y: "console_input yes_env 1 = Inr ''Yes'' \<and> lower ''Yes'' = ''yes''"
    by (simp add: yes_env_def lower_def lower_char_def)
  have n: "console_input no_env 1 = Inr ''y'' \<and> lower ''y'' \<noteq> ''yes''"
    by (simp add: no_env_def lower_def lower_char_def)
  from C5_cli_deletion_waits_for_yes
         [of yes_env "''Yes''" "''fileSearchStores/a''" "''fileSearchStores/a/documents/1''"] y
       C5_cli_deletion_waits_for_yes
         [of no_env "''y''" "''fileSearchStores/a''" "''fileSearchStores/a/documents/1''"] n
  show ?thesis by blast
qed

text \<open>
  Against the claim as stated: the demo, with no sample file, issues the forced
  deletion of its store, and its trace holds no read from the console.
\<close>

theorem C5_counterexample:
  "main quiet_env demo_defaults =
     Some (Returned,
           [Print (Creating_store ''gemini-2.5-flash''),
            Call (StoresCreate ''Company Knowledge Base - Demo''),
            Print (Store_created ''fileSearchStores/demo''),
            Print Uploading_sample_documents,
            Print (Demo_file_not_found ''samples/sample1.pdf''),
            Print (Demo_file_not_found ''samples/sample2.pdf''),
            Print (Demo_file_not_found ''samples/sample3.pdf''),
            Print No_files_uploaded_cleaning_up,
            Call (StoresDelete ''fileSearchStores/demo'' True)])
   \<and> (case main quiet_env demo_defaults of
         None \<Rightarrow> False
       | Some (out, tr) \<Rightarrow>
           StoresDelete ''fileSearchStores/demo'' True \<in> set (calls_of tr) \<and> ReadInput \<notin> set tr)"
  by (simp add: main_def quiet_env_def demo_defaults_def sample_files_def demo_finish_def
      calls_of_Cons)

section \<open>Queries\<close>

text \<open>
  What the loop over the grounding chunks prints, chunk by chunk: nothing for a chunk
  without the \<^verbatim>\<open>file_search\<close> attribute, the document's name and then its pages,
  if it has a page range, for a chunk with it.
\<close>

lemma print_sources_chunkwise:
  "print_sources chunks =
     concat (map (\<lambda>chunk. case file_search chunk of
                             None \<Rightarrow> []
                           | Some fs \<Rightarrow>
                               Source (fs_document_display_name fs) #
                               (case page_range fs of
                                  None \<Rightarrow> []
                                | Some (start_page, end_page) \<Rightarrow> [Pages start_page end_page]))
                 chunks)"
  by (induction chunks) (auto split: option.splits)

lemma no_error_in_sources: "\<not> list_ex is_error_line (print_sources chunks)"
  by (induction chunks) (auto simp: is_error_line_def split: option.splits)

text \<open>
  A response with a first candidate: without grounding metadata the run prints the
  answer and that no source is cited; with grounding metadata it prints the answer,
  the header and the lines of the chunks.
\<close>

lemma query_store_not_grounded:
  assumes "generate_content env 2 model question store_nm = Inr resp"
    and "candidates resp = cand # others" and "grounding_metadata cand = None"
  shows "query_store env store_nm question model =
     [Print (Querying_store store_nm), Print (Question question),
      Call (GenerateContent model question store_nm), Print (Answer (text_of resp)),
      Print No_sources_cited]"
  using assms by (simp add: query_store_def)

lemma query_store_grounded:
  assumes "generate_content env 2 model question store_nm = Inr resp"
    and "candidates resp = cand # others" and "grounding_metadata cand = Some gm"
  shows "query_store env store_nm question model =
     [Print (Querying_store store_nm), Print (Question question),
      Call (GenerateContent model question store_nm), Print (Answer (text_of resp)),
      Print Sources_header] @ map Print (print_sources (grounding_chunks gm))"
  using assms by (simp add: query_store_def)

text \<open>A response without a candidate: the run prints the answer and then an error.\<close>

lemma query_store_no_candidate:
  assumes "generate_content env 2 model question store_nm = Inr resp"
    and "candidates resp = []"
  shows "query_store env store_nm question model =
     [Print (Querying_store store_nm), Print (Question question),
      Call (GenerateContent model question store_nm), Print (Answer (text_of resp)),
      Print (Error_querying ''list index out of range'')]"
  using assms by (simp add: query_store_def)

text \<open>
  C6. The claim: a query whose response carries no grounding metadata at all has no
  citations and is a valid outcome, not an error; and a grounding chunk without a
  \<^verbatim>\<open>file_search\<close> attribute is left out of the citations. The source reads the
  grounding metadata from \<^verbatim>\<open>response.candidates[0]\<close>. A response with no
  candidate carries no grounding metadata; there the index raises inside the
  \<^verbatim>\<open>try\<close> and the run prints the answer and then
  \<open>Error querying store: list index out of range\<close>. A response whose first candidate
  has no grounding metadata prints that no source is cited, and of three chunks of which
  only the second has the attribute the run prints the second alone.
\<close>

theorem C6_no_candidate_is_reported_as_an_error:
  "query_store no_candidate_env ''fileSearchStores/a'' ''Why?'' ''gemini-2.5-flash'' =
     [Print (Querying_store ''fileSearchStores/a''), Print (Question ''Why?''),
      Call (GenerateContent ''gemini-2.5-flash'' ''Why?'' ''fileSearchStores/a''),
      Print (Answer ''None''), Print (Error_querying ''list index out of range'')]
   \<and> list_ex is_error_line
        (prints_of (query_store no_candidate_env ''fileSearchStores/a'' ''Why?'' ''gemini-2.5-flash''))
   \<and> query_store quiet_env ''fileSearchStores/a'' ''Why?'' ''gemini-2.5-flash'' =
     [Print (Querying_store ''fileSearchStores/a''), Print (Question ''Why?''),
      Call (GenerateContent ''gemini-2.5-flash'' ''Why?'' ''fileSearchStores/a''),
      Print (Answer ''answer''), Print No_sources_cited]
   \<and> query_store grounded_env ''fileSearchStores/a'' ''Why?'' ''gemini-2.5-flash'' =
     [Print (Querying_store ''fileSearchStores/a''), Print (Question ''Why?''),
      Call (GenerateContent ''gemini-2.5-flash'' ''Why?'' ''fileSearchStores/a''),
      Print (Answer ''The report says so.''), Print Sources_header,
      Print (Source ''report.pdf''), Print (Pages 2 5)]"
  by (simp add: query_store_def no_candidate_env_def grounded_env_def quiet_env_def
      web_chunk_def cited_chunk_def prints_of_def is_error_line_def)

end
